theory Spec2Isabelle
  imports Complex_Main "HOL-Library.Word" "HOL-Library.Log_Nat"
begin

section \<open>Machine numbers of the Go sources\<close>

text \<open>
  \<open>int32\<close> values (the \<open>atomic.Int32\<close> fields, \<open>rand.Int31n\<close>) are 32-bit words read
  as two's complement by \<open>sint\<close> and compared with \<open><s\<close>.
\<close>

type_synonym int32 = "32 word"

text \<open>
  A \<open>float32\<close> is NaN, an infinity, or a finite value. A finite value is kept as the
  rational it denotes; the values a \<open>float32\<close> can really hold are those that
  \<open>round_f32\<close> leaves unchanged (\<open>is_float32\<close>). The sign of zero is not kept: none of
  the modelled operations distinguishes \<open>-0.0\<close> from \<open>0.0\<close>.
\<close>

datatype float32 = NaN | PInf | NInf | Fin rat

text \<open>Rounding to the nearest integer, ties to the even one.\<close>

definition round_half_even :: "rat \<Rightarrow> int" where
  "round_half_even y =
     (let f = \<lfloor>y\<rfloor>; d = y - of_int f
      in if d < 1 / 2 then f else if 1 / 2 < d then f + 1 else if even f then f else f + 1)"

text \<open>
  The exponent of the unit in the last place of the binary32 binade of \<open>a \<ge> 0\<close>:
  \<open>\<lfloor>log\<^sub>2 a\<rfloor> - 23\<close>, and \<open>-149\<close> throughout the subnormal range.
\<close>

definition ulp_exp :: "rat \<Rightarrow> int" where
  "ulp_exp a = max (bitlen \<lfloor>a * 2 ^ 149\<rfloor> - 173) (- 149)"

text \<open>IEEE 754 binary32 rounding (to nearest, ties to even) of an exact result.\<close>

definition round_f32 :: "rat \<Rightarrow> float32" where
  "round_f32 x =
     (let a = \<bar>x\<bar>; q = ulp_exp a;
          r = of_int (round_half_even (a / power_int 2 q)) * power_int 2 q
      in if 2 ^ 128 \<le> r then (if 0 < x then PInf else NInf) else Fin (sgn x * r))"

fun is_float32 :: "float32 \<Rightarrow> bool" where
  "is_float32 (Fin x) = (round_f32 x = Fin x)"
| "is_float32 _ = True"

text \<open>The comparison \<open><\<close> of Go on \<open>float32\<close>: false as soon as an operand is NaN.\<close>

fun f32_lt :: "float32 \<Rightarrow> float32 \<Rightarrow> bool" where
  "f32_lt (Fin x) (Fin y) = (x < y)"
| "f32_lt NInf (Fin y) = True"
| "f32_lt NInf PInf = True"
| "f32_lt (Fin x) PInf = True"
| "f32_lt _ _ = False"

text \<open>The comparison \<open><=\<close> of Go on \<open>float32\<close>, and membership in \<open>[0.0, 1.0]\<close>.\<close>

fun f32_le :: "float32 \<Rightarrow> float32 \<Rightarrow> bool" where
  "f32_le NaN _ = False"
| "f32_le _ NaN = False"
| "f32_le NInf _ = True"
| "f32_le _ PInf = True"
| "f32_le (Fin x) (Fin y) = (x \<le> y)"
| "f32_le _ _ = False"

definition in_unit_interval :: "float32 \<Rightarrow> bool" where
  "in_unit_interval p = (f32_le (Fin 0) p \<and> f32_le p (Fin 1))"

text \<open>The product of two \<open>float32\<close> values, rounded to \<open>float32\<close>.\<close>

fun f32_mul :: "float32 \<Rightarrow> float32 \<Rightarrow> float32" where
  "f32_mul (Fin x) (Fin y) = round_f32 (x * y)"
| "f32_mul NaN _ = NaN"
| "f32_mul _ NaN = NaN"
| "f32_mul PInf (Fin y) = (if y = 0 then NaN else if 0 < y then PInf else NInf)"
| "f32_mul NInf (Fin y) = (if y = 0 then NaN else if 0 < y then NInf else PInf)"
| "f32_mul (Fin x) PInf = (if x = 0 then NaN else if 0 < x then PInf else NInf)"
| "f32_mul (Fin x) NInf = (if x = 0 then NaN else if 0 < x then NInf else PInf)"
| "f32_mul PInf PInf = PInf"
| "f32_mul NInf NInf = PInf"
| "f32_mul PInf NInf = NInf"
| "f32_mul NInf PInf = NInf"

text \<open>The conversion \<open>float32(n)\<close> of an \<open>int32\<close>.\<close>

definition float32_of_int32 :: "int32 \<Rightarrow> float32" where
  "float32_of_int32 n = round_f32 (of_int (sint n))"

text \<open>
  The conversion \<open>int32(f)\<close> of a \<open>float32\<close>: the fraction is discarded (truncation
  towards zero). When the truncated value does not fit an \<open>int32\<close>, or \<open>f\<close> is NaN or
  infinite, the Go specification leaves the result to the implementation; the function
  \<open>impl\<close> stands for what the platform yields there.
\<close>

definition int32_of_float32 :: "(float32 \<Rightarrow> int32) \<Rightarrow> float32 \<Rightarrow> int32" where
  "int32_of_float32 impl f =
     (case f of
        Fin x \<Rightarrow>
          (let t = (if 0 \<le> x then \<lfloor>x\<rfloor> else \<lceil>x\<rceil>)
           in if - (2 ^ 31) \<le> t \<and> t < 2 ^ 31 then word_of_int t else impl f)
      | _ \<Rightarrow> impl f)"

section \<open>failuregen/failure_generator.go\<close>

text \<open>
  The error values of the sources: the injected failure, the two \<open>errors.Errorf\<close> values
  of the configuration calls, \<open>errors.Wrap\<close> and \<open>errors.Wrapf\<close> around a cause, and the
  errors of the \<open>net\<close> and \<open>io\<close> packages that the relay tells apart: a \<open>*net.OpError\<close>
  whose \<open>Timeout()\<close> holds, \<open>io.EOF\<close>, and any other error.
\<close>

datatype error =
    errInjectedFailure
  | InvalidProbability float32
  | InvalidDelay int32
  | Wrapf error string
  | NetTimeout
  | io_EOF
  | NetError string

definition OneMillion :: int32 where
  "OneMillion = 1000000"

record DelayConfig =
  MaxDelayMicros :: int32
  DelayProbability :: float32

text \<open>
  The three atomic fields of \<open>FailureGeneratorImpl\<close>. The field \<open>DelayFn\<close> is the effect
  of a delay; the model reports the requested delay in the outcome of \<open>FailMaybe\<close>.
\<close>

record FailureGeneratorImpl =
  failurePpm :: int32
  delayPpm :: int32
  maxDelayMicros :: int32

text \<open>\<open>NewFailureGenerator\<close>: all atomic fields start at zero.\<close>

definition NewFailureGenerator :: FailureGeneratorImpl where
  "NewFailureGenerator = \<lparr>failurePpm = 0, delayPpm = 0, maxDelayMicros = 0\<rparr>"

definition ppm :: "(float32 \<Rightarrow> int32) \<Rightarrow> float32 \<Rightarrow> error + int32" where
  "ppm impl p =
     (if f32_lt p (Fin 0) \<or> f32_lt (Fin 1) p then Inl (InvalidProbability p)
      else Inr (int32_of_float32 impl (f32_mul p (float32_of_int32 OneMillion))))"

definition SetDelayConfig ::
  "(float32 \<Rightarrow> int32) \<Rightarrow> DelayConfig \<Rightarrow> FailureGeneratorImpl \<Rightarrow> error option \<times> FailureGeneratorImpl"
where
  "SetDelayConfig impl c fg =
     (case ppm impl (DelayProbability c) of
        Inl e \<Rightarrow> (Some (Wrapf e ''Couldn't compute delay-ppm''), fg)
      | Inr d \<Rightarrow>
          if MaxDelayMicros c <s 0 then (Some (InvalidDelay (MaxDelayMicros c)), fg)
          else (None, fg\<lparr>delayPpm := d, maxDelayMicros := MaxDelayMicros c\<rparr>))"

definition SetFailureProbability ::
  "(float32 \<Rightarrow> int32) \<Rightarrow> float32 \<Rightarrow> FailureGeneratorImpl \<Rightarrow> error option \<times> FailureGeneratorImpl"
where
  "SetFailureProbability impl p fg =
     (case ppm impl p of
        Inl e \<Rightarrow> (Some (Wrapf e ''Couldn't compute failure-ppm''), fg)
      | Inr f \<Rightarrow> (None, fg\<lparr>failurePpm := f\<rparr>))"

text \<open>
  \<open>rand.Int31n(n)\<close> of the Go library: it panics when \<open>n \<le> 0\<close> and otherwise returns a
  value of \<open>[0, n)\<close>. The randomness is an argument: \<open>r\<close> is the raw draw, so that the
  results over all \<open>r\<close> are exactly the values of \<open>[0, n)\<close>. \<open>None\<close> is the panic.
\<close>

definition Int31n :: "int32 \<Rightarrow> nat \<Rightarrow> int32 option" where
  "Int31n n r = (if sint n \<le> 0 then None else Some (word_of_int (int r mod sint n)))"

text \<open>
  What a call of \<open>FailMaybe\<close> does: it panics, or it returns an error or \<open>nil\<close> after
  having called \<open>DelayFn\<close> or not (the first argument of \<open>Returned\<close> is the argument of
  that call in microseconds, the second what \<open>FailMaybe\<close> returns).
\<close>

datatype outcome = Panicked | Returned "int32 option" "error option"

text \<open>
  \<open>FailMaybe\<close>, with the draws of its up to three calls of \<open>rand.Int31n\<close> as arguments:
  \<open>r1\<close> for the delay trial, \<open>r2\<close> for the length of the delay, \<open>r3\<close> for the failure
  trial.
\<close>

definition FailMaybe :: "FailureGeneratorImpl \<Rightarrow> nat \<Rightarrow> nat \<Rightarrow> nat \<Rightarrow> outcome" where
  "FailMaybe fg r1 r2 r3 =
     (case Int31n OneMillion r1 of
        None \<Rightarrow> Panicked
      | Some d1 \<Rightarrow>
          (case (if d1 <s delayPpm fg
                 then map_option Some (Int31n (maxDelayMicros fg) r2)
                 else Some None) of
             None \<Rightarrow> Panicked
           | Some sl \<Rightarrow>
               (case Int31n OneMillion r3 of
                  None \<Rightarrow> Panicked
                | Some d3 \<Rightarrow>
                    Returned sl (if d3 <s failurePpm fg then Some errInjectedFailure else None))))"


section \<open>tcpproxy/tcpproxy.go\<close>

type_synonym byte = "8 word"
type_synonym conn = nat

text \<open>
  Modelled from the spec: the declaration of the type \<open>ProxyStats\<close> and of the field
  \<open>stats\<close> is missing from the sources, which only use them; the spec gives three
  independent counters (active connections, frontend drops, backend drops), and
  \<open>String\<close> reads the three fields below with \<open>Load\<close>. They are \<open>atomic.Int32\<close>:
  \<open>Inc\<close> and \<open>Dec\<close> add and subtract one, wrapping around.
\<close>

record ProxyStats =
  activeConnCtr :: int32
  FrontendDropCtr :: int32
  backendDropCtr :: int32

text \<open>
  The relay as the accept loop and the connection handlers see it: the counters, the
  accept-time generator, the \<open>Close\<close> calls made on frontend connections (in order, so a
  connection closed twice is listed twice), the connections whose handler goroutine has
  been spawned (\<open>handed\<close>) and of those the ones still running (\<open>running\<close>), the count of
  the wait group \<open>wg\<close>, whether \<open>quit\<close> is closed, and whether the accept loop still
  runs. The field \<open>acceptFg\<close> has the interface type \<open>FailureGenerator\<close>; the state keeps
  the generator of \<open>failure_generator.go\<close> there, and the accept loop below takes what
  the call of \<open>FailMaybe\<close> does as an argument, so that it is the loop of any generator.
\<close>

record testTCPProxy =
  stats :: ProxyStats
  acceptFg :: FailureGeneratorImpl
  closed :: "conn list"
  handed :: "conn list"
  running :: "conn list"
  wg :: int
  quit :: bool
  serving :: bool

text \<open>\<open>NewTCPProxy\<close> after a successful \<open>net.Listen\<close>: \<open>wg.Add(1)\<close> and \<open>go t.serve()\<close>.\<close>

definition NewTCPProxy :: "FailureGeneratorImpl \<Rightarrow> testTCPProxy" where
  "NewTCPProxy afg =
     \<lparr>stats = \<lparr>activeConnCtr = 0, FrontendDropCtr = 0, backendDropCtr = 0\<rparr>,
      acceptFg = afg, closed = [], handed = [], running = [], wg = 1,
      quit = False, serving = True\<rparr>"

definition BlockIncomingConns :: "(float32 \<Rightarrow> int32) \<Rightarrow> testTCPProxy \<Rightarrow> testTCPProxy" where
  "BlockIncomingConns impl t = t\<lparr>acceptFg := snd (SetFailureProbability impl (Fin 1) (acceptFg t))\<rparr>"

definition closeFrontendConn :: "conn \<Rightarrow> string \<Rightarrow> testTCPProxy \<Rightarrow> testTCPProxy" where
  "closeFrontendConn c reason t =
     (let t1 = t\<lparr>closed := closed t @ [c]\<rparr>;
          t2 = (if reason = ''drop''
                then t1\<lparr>stats := (stats t1)\<lparr>FrontendDropCtr := FrontendDropCtr (stats t1) + 1\<rparr>\<rparr>
                else t1)
      in t2\<lparr>stats := (stats t2)\<lparr>activeConnCtr := activeConnCtr (stats t2) - 1\<rparr>\<rparr>)"

text \<open>
  What an iteration of the accept loop meets: \<open>listener.Accept\<close> fails, or it returns a
  connection and the call \<open>t.acceptFg.FailMaybe()\<close> that follows does \<open>fm\<close>.
\<close>

datatype accept_result = AcceptError | Accepted conn outcome

text \<open>
  One iteration of the loop of \<open>serve\<close>. The result is \<open>None\<close> when the call of
  \<open>FailMaybe\<close> panics; otherwise the flag tells whether the loop goes on. Leaving the
  loop runs the deferred \<open>wg.Done\<close>.
\<close>

definition serve_iter :: "accept_result \<Rightarrow> testTCPProxy \<Rightarrow> (bool \<times> testTCPProxy) option" where
  "serve_iter a t =
     (case a of
        AcceptError \<Rightarrow>
          if quit t then Some (False, t\<lparr>wg := wg t - 1, serving := False\<rparr>) else Some (True, t)
      | Accepted c fm \<Rightarrow>
          (case fm of
             Panicked \<Rightarrow> None
           | Returned sl e \<Rightarrow>
               (let t1 = (case e of Some x \<Rightarrow> closeFrontendConn c ''drop'' t | None \<Rightarrow> t);
                    t2 = t1\<lparr>wg := wg t1 + 1\<rparr>;
                    t3 = t2\<lparr>stats := (stats t2)\<lparr>activeConnCtr := activeConnCtr (stats t2) + 1\<rparr>\<rparr>
                in Some (True, t3\<lparr>handed := handed t3 @ [c], running := running t3 @ [c]\<rparr>))))"

text \<open>
  The end of a handler goroutine: whatever \<open>handle\<close> returns, its deferred
  \<open>closeFrontendConn(frontendConn, "")\<close> runs, then the goroutine calls \<open>wg.Done\<close>.
\<close>

definition handler_done :: "conn \<Rightarrow> testTCPProxy \<Rightarrow> testTCPProxy" where
  "handler_done c t =
     (let t1 = closeFrontendConn c [] t
      in t1\<lparr>running := remove1 c (running t1), wg := wg t1 - 1\<rparr>)"

text \<open>
  The operations of a relay, as the events of a run: an iteration of the accept loop, the
  completion of the handler of a connection, and the two assignments of \<open>Stop\<close> (closing
  \<open>quit\<close>; the listener it closes makes the pending \<open>Accept\<close> fail). An event that cannot
  happen in a state (an accept after the loop has ended, the completion of a handler
  that does not run) leaves the state as it is. \<open>None\<close> is a panic.
\<close>

datatype event = Accept accept_result | HandlerDone conn | StopCalled

definition step :: "event \<Rightarrow> testTCPProxy \<Rightarrow> testTCPProxy option" where
  "step ev t =
     (case ev of
        Accept a \<Rightarrow> if serving t then map_option snd (serve_iter a t) else Some t
      | HandlerDone c \<Rightarrow> if c \<in> set (running t) then Some (handler_done c t) else Some t
      | StopCalled \<Rightarrow> Some (t\<lparr>quit := True\<rparr>))"

fun run :: "event list \<Rightarrow> testTCPProxy \<Rightarrow> testTCPProxy option" where
  "run [] t = Some t"
| "run (ev # evs) t = (case step ev t of None \<Rightarrow> None | Some t' \<Rightarrow> run evs t')"

subsection \<open>The relay loop \<open>copy\<close>\<close>

text \<open>
  The receive-time generator as \<open>copy\<close> uses it: \<open>FailOnCondition\<close> is present exactly
  when the type assertion to \<open>ConditionalFailureGenerator\<close> succeeds.
\<close>

record recvGen =
  FailOnCondition :: "(byte list \<Rightarrow> error option) option"

text \<open>
  What one iteration observes of its surroundings: whether \<open>peerTermCh\<close> and \<open>t.quit\<close>
  are closed, the error of \<open>SetReadDeadline\<close>, the bytes \<open>Read\<close> has to offer and its
  error, what \<open>t.recvFg.FailMaybe()\<close> returns if it is called, and the error of
  \<open>dest.Write\<close>.
\<close>

record copy_env =
  peerTerm :: bool
  quitClosed :: bool
  deadlineErr :: "error option"
  readData :: "byte list"
  readErr :: "error option"
  failMaybe :: "error option"
  writeErr :: "error option"

datatype fg_call = CallFailOnCondition "byte list" | CallFailMaybe

text \<open>
  The state of a running \<open>copy\<close>: the buffer \<open>buf\<close>, the counters, the bytes written to
  \<open>dest\<close> by the writes that succeeded, the calls made to the receive-time generator, and
  whether \<open>selfTermCh\<close> is closed.
\<close>

record copy_state =
  buf :: "byte list"
  cstats :: ProxyStats
  written :: "byte list"
  calls :: "fg_call list"
  selfTerm :: bool

definition copy_init :: "ProxyStats \<Rightarrow> copy_state" where
  "copy_init st = \<lparr>buf = replicate 1024 0, cstats = st, written = [], calls = [], selfTerm = False\<rparr>"

definition backendDrop_Inc :: "copy_state \<Rightarrow> copy_state" where
  "backendDrop_Inc s = s\<lparr>cstats := (cstats s)\<lparr>backendDropCtr := backendDropCtr (cstats s) + 1\<rparr>\<rparr>"

text \<open>The tail of an iteration: \<open>dest.Write(buf[:nr])\<close>. \<open>None\<close>: the loop goes on.\<close>

definition copy_write :: "copy_env \<Rightarrow> nat \<Rightarrow> copy_state \<Rightarrow> copy_state \<times> error option option" where
  "copy_write e nr s =
     (case writeErr e of
        Some err \<Rightarrow> (s, Some (Some (Wrapf err ''write'')))
      | None \<Rightarrow> (s\<lparr>written := written s @ take nr (buf s)\<rparr>, None))"

text \<open>The part of an iteration after the read, from the test \<open>nr == 0\<close> on.\<close>

definition copy_received :: "recvGen \<Rightarrow> copy_env \<Rightarrow> nat \<Rightarrow> copy_state \<Rightarrow> copy_state \<times> error option option" where
  "copy_received g e nr s =
     (if nr = 0 then (s, Some None)
      else
        (case FailOnCondition g of
           Some cond \<Rightarrow>
             (let s1 = s\<lparr>calls := calls s @ [CallFailOnCondition (buf s)]\<rparr>
              in case cond (buf s) of
                   Some err \<Rightarrow>
                     (backendDrop_Inc s1,
                      Some (Some (Wrapf err ''injected recv failure on satisfying condition'')))
                 | None \<Rightarrow> copy_write e nr s1)
         | None \<Rightarrow>
             (let s1 = s\<lparr>calls := calls s @ [CallFailMaybe]\<rparr>
              in case failMaybe e of
                   Some err \<Rightarrow> (backendDrop_Inc s1, Some (Some (Wrapf err ''injected recv failure'')))
                 | None \<Rightarrow> copy_write e nr s1)))"

text \<open>
  One iteration of the loop of \<open>copy\<close>. The second component is \<open>None\<close> when the loop
  goes on and \<open>Some r\<close> when \<open>copy\<close> returns \<open>r\<close> (\<open>Some None\<close> is \<open>return nil\<close>).
  \<open>Read\<close> stores at most \<open>len(buf)\<close> bytes at the start of \<open>buf\<close> and leaves the rest of
  the buffer as it was.
\<close>

definition copy_iter :: "recvGen \<Rightarrow> copy_env \<Rightarrow> copy_state \<Rightarrow> copy_state \<times> error option option" where
  "copy_iter g e s =
     (if peerTerm e then (s, Some None)
      else if quitClosed e then (s, Some None)
      else
        (case deadlineErr e of
           Some err \<Rightarrow> (s, Some (Some (Wrapf err ''set source deadline'')))
         | None \<Rightarrow>
             (let d = take (length (buf s)) (readData e);
                  nr = length d;
                  s1 = s\<lparr>buf := d @ drop nr (buf s)\<rparr>
              in case readErr e of
                   Some err \<Rightarrow>
                     if err = NetTimeout then (s1, None)
                     else if err \<noteq> io_EOF then (s1, Some (Some (Wrapf err ''read'')))
                     else copy_received g e nr s1
                 | None \<Rightarrow> copy_received g e nr s1)))"

text \<open>
  The loop over the iterations the surroundings allow: with no observation left the
  loop is still running (\<open>None\<close>).
\<close>

fun copy_loop :: "recvGen \<Rightarrow> copy_env list \<Rightarrow> copy_state \<Rightarrow> copy_state \<times> error option option" where
  "copy_loop g [] s = (s, None)"
| "copy_loop g (e # es) s =
     (case copy_iter g e s of
        (s', None) \<Rightarrow> copy_loop g es s'
      | (s', Some r) \<Rightarrow> (s', Some r))"

text \<open>\<open>copy\<close>: the loop on a fresh buffer; returning runs the deferred \<open>close(selfTermCh)\<close>.\<close>

definition copy :: "recvGen \<Rightarrow> copy_env list \<Rightarrow> ProxyStats \<Rightarrow> copy_state \<times> error option option" where
  "copy g es st =
     (case copy_loop g es (copy_init st) of
        (s, None) \<Rightarrow> (s, None)
      | (s, Some r) \<Rightarrow> (s\<lparr>selfTerm := True\<rparr>, Some r))"


text \<open>
  Modelled from the spec: an implementation of the content-conditioned capability (none is
  among the sources). The spec has it scan the supplied buffer for a data-dependent
  condition, by a naive scan, and fail if and only if the condition holds; here the
  condition is that the buffer contains the byte pattern \<open>pat\<close>.
\<close>

fun contains_pattern :: "byte list \<Rightarrow> byte list \<Rightarrow> bool" where
  "contains_pattern pat [] = (pat = [])"
| "contains_pattern pat (b # bs) = (take (length pat) (b # bs) = pat \<or> contains_pattern pat bs)"

definition FailOnPattern :: "byte list \<Rightarrow> byte list \<Rightarrow> error option" where
  "FailOnPattern pat b = (if contains_pattern pat b then Some errInjectedFailure else None)"

section \<open>failuregen: the assured failure plan\<close>

type_synonym FailurePoint = string

text \<open>A file system: the contents of the files that exist, by path.\<close>

type_synonym filesystem = "string \<rightharpoonup> string"

text \<open>
  The plan object of the test (\<open>afp.(*failuregen.AssuredFailurePlanImpl).PlanFilePath\<close>):
  a path and nothing else.
\<close>

record AssuredFailurePlanImpl =
  PlanFilePath :: string

subsection \<open>Decoders for the plan file\<close>

text \<open>
  Modelled from the spec: the JSON decoder is a collaborator outside the repository. The
  spec gives the shape of the plan file, a JSON array of strings, and the helper of the
  test writes the file with \<open>json.Marshal\<close> of Go's \<open>encoding/json\<close>, which writes \<open>null\<close>
  for a plan without points. The scanner below reads the bytes of a file in two ways.
  Strictly (\<open>go = False\<close>, \<open>json_string_array\<close>) it accepts a JSON array of strings and
  nothing else: white space, the brackets, commas, and strings in double quotes with the
  escapes of JSON (\<open>\u\<close> escapes give UTF-8, a surrogate pair one code point, a lone
  surrogate U+FFFD). As \<open>json.Unmarshal\<close> does into a slice of strings (\<open>go = True\<close>,
  \<open>decode_plan\<close>) it accepts in addition the value \<open>null\<close>, read as the empty list, and
  \<open>null\<close> as an element, read as the empty string, and it replaces every byte of a
  string that is not part of a UTF-8 sequence by U+FFFD. \<open>decode_plan\<close> is the decoder the
  closed examples below run; the plan's \<open>FailMaybe\<close> takes its decoder as an argument.
\<close>

datatype json_state =
    JStart
  | JOpen
  | JString string
  | JEscape string
  | JHex string nat nat
  | JHigh string nat
  | JHighEsc string nat
  | JHexLow string nat nat nat
  | JNullTop nat
  | JNullElem nat
  | JAfter
  | JComma
  | JEnd

definition is_ws :: "char \<Rightarrow> bool" where
  "is_ws c = (c = CHR '' '' \<or> c = CHR 0x09 \<or> c = CHR 0x0A \<or> c = CHR 0x0D)"

definition hex_val :: "char \<Rightarrow> nat option" where
  "hex_val c =
     (let n = (of_char c :: nat)
      in if 48 \<le> n \<and> n \<le> 57 then Some (n - 48)
         else if 65 \<le> n \<and> n \<le> 70 then Some (n - 55)
         else if 97 \<le> n \<and> n \<le> 102 then Some (n - 87)
         else None)"

definition utf8 :: "nat \<Rightarrow> string" where
  "utf8 cp =
     (if cp < 0x80 then [char_of cp]
      else if cp < 0x800 then [char_of (0xC0 + cp div 64), char_of (0x80 + cp mod 64)]
      else if cp < 0x10000 then
        [char_of (0xE0 + cp div 4096), char_of (0x80 + cp div 64 mod 64), char_of (0x80 + cp mod 64)]
      else
        [char_of (0xF0 + cp div 262144), char_of (0x80 + cp div 4096 mod 64),
         char_of (0x80 + cp div 64 mod 64), char_of (0x80 + cp mod 64)])"

text \<open>
  The length of the UTF-8 sequence at the head of a byte string, 0 when there is none
  (\<open>utf8.DecodeRune\<close> of Go: no overlong form, no surrogate, nothing above U+10FFFF).
\<close>

definition in_range :: "nat \<Rightarrow> nat \<Rightarrow> char \<Rightarrow> bool" where
  "in_range lo hi c = (lo \<le> (of_char c :: nat) \<and> (of_char c :: nat) \<le> hi)"

definition utf8_len :: "string \<Rightarrow> nat" where
  "utf8_len bs =
     (case bs of
        [] \<Rightarrow> 0
      | b # r \<Rightarrow>
          (let n = (of_char b :: nat)
           in if n < 0x80 then 1
              else if 0xC2 \<le> n \<and> n \<le> 0xDF then
                (case r of
                   b1 # _ \<Rightarrow> if in_range 0x80 0xBF b1 then 2 else 0
                 | _ \<Rightarrow> 0)
              else if 0xE0 \<le> n \<and> n \<le> 0xEF then
                (case r of
                   b1 # b2 # _ \<Rightarrow>
                     if in_range (if n = 0xE0 then 0xA0 else 0x80) (if n = 0xED then 0x9F else 0xBF) b1
                        \<and> in_range 0x80 0xBF b2
                     then 3 else 0
                 | _ \<Rightarrow> 0)
              else if 0xF0 \<le> n \<and> n \<le> 0xF4 then
                (case r of
                   b1 # b2 # b3 # _ \<Rightarrow>
                     if in_range (if n = 0xF0 then 0x90 else 0x80) (if n = 0xF4 then 0x8F else 0xBF) b1
                        \<and> in_range 0x80 0xBF b2 \<and> in_range 0x80 0xBF b3
                     then 4 else 0
                 | _ \<Rightarrow> 0)
              else 0))"

text \<open>Every byte that starts no UTF-8 sequence becomes U+FFFD; the sequences stay.\<close>

fun coerce_utf8 :: "string \<Rightarrow> string" where
  "coerce_utf8 [] = []"
| "coerce_utf8 (b # bs) =
     (let n = utf8_len (b # bs)
      in if n = 0 then utf8 0xFFFD @ coerce_utf8 bs
         else b # take (n - 1) bs @ coerce_utf8 (drop (n - 1) bs))"

definition simple_escape :: "char \<Rightarrow> char option" where
  "simple_escape c =
     (if c = CHR 0x22 \<or> c = CHR 0x5C \<or> c = CHR ''/'' then Some c
      else if c = CHR ''b'' then Some (CHR 0x08)
      else if c = CHR ''f'' then Some (CHR 0x0C)
      else if c = CHR ''n'' then Some (CHR 0x0A)
      else if c = CHR ''r'' then Some (CHR 0x0D)
      else if c = CHR ''t'' then Some (CHR 0x09)
      else None)"

text \<open>A character inside a string whose contents so far are \<open>acc\<close>.\<close>

definition string_char ::
  "bool \<Rightarrow> string \<Rightarrow> string list \<Rightarrow> char \<Rightarrow> (json_state \<times> string list) option"
where
  "string_char go acc fps c =
     (if c = CHR 0x22 then Some (JAfter, fps @ [if go then coerce_utf8 acc else acc])
      else if c = CHR 0x5C then Some (JEscape acc, fps)
      else if (of_char c :: nat) < 32 then None
      else Some (JString (acc @ [c]), fps))"

text \<open>The character after a backslash.\<close>

definition escape_char :: "string \<Rightarrow> string list \<Rightarrow> char \<Rightarrow> (json_state \<times> string list) option" where
  "escape_char acc fps c =
     (if c = CHR ''u'' then Some (JHex acc 0 0, fps)
      else map_option (\<lambda>x. (JString (acc @ [x]), fps)) (simple_escape c))"

text \<open>A complete \<open>\u\<close> escape of the code unit \<open>u\<close>, with no high surrogate pending.\<close>

definition code_unit :: "string \<Rightarrow> nat \<Rightarrow> json_state" where
  "code_unit acc u =
     (if 0xD800 \<le> u \<and> u < 0xDC00 then JHigh acc u
      else if 0xDC00 \<le> u \<and> u < 0xE000 then JString (acc @ utf8 0xFFFD)
      else JString (acc @ utf8 u))"

text \<open>
  The letter of \<open>null\<close> that follows its first \<open>k\<close> letters (\<open>k\<close> is 1, 2 or 3 in the
  states \<open>JNullTop k\<close> and \<open>JNullElem k\<close>).
\<close>

definition null_letter :: "nat \<Rightarrow> char \<Rightarrow> bool" where
  "null_letter k c = (if k = 1 then c = CHR ''u'' else (k = 2 \<or> k = 3) \<and> c = CHR ''l'')"

definition json_step ::
  "bool \<Rightarrow> json_state \<Rightarrow> string list \<Rightarrow> char \<Rightarrow> (json_state \<times> string list) option"
where
  "json_step go st fps c =
     (case st of
        JStart \<Rightarrow>
          if is_ws c then Some (JStart, fps)
          else if c = CHR ''['' then Some (JOpen, fps)
          else if go \<and> c = CHR ''n'' then Some (JNullTop 1, fps)
          else None
      | JOpen \<Rightarrow>
          if is_ws c then Some (JOpen, fps)
          else if c = CHR 0x22 then Some (JString [], fps)
          else if c = CHR '']'' then Some (JEnd, fps)
          else if go \<and> c = CHR ''n'' then Some (JNullElem 1, fps)
          else None
      | JString acc \<Rightarrow> string_char go acc fps c
      | JEscape acc \<Rightarrow> escape_char acc fps c
      | JHex acc k v \<Rightarrow>
          (case hex_val c of
             None \<Rightarrow> None
           | Some d \<Rightarrow>
               if k < 3 then Some (JHex acc (k + 1) (16 * v + d), fps)
               else Some (code_unit acc (16 * v + d), fps))
      | JHigh acc hi \<Rightarrow>
          if c = CHR 0x5C then Some (JHighEsc acc hi, fps)
          else string_char go (acc @ utf8 0xFFFD) fps c
      | JHighEsc acc hi \<Rightarrow>
          if c = CHR ''u'' then Some (JHexLow acc hi 0 0, fps)
          else escape_char (acc @ utf8 0xFFFD) fps c
      | JHexLow acc hi k v \<Rightarrow>
          (case hex_val c of
             None \<Rightarrow> None
           | Some d \<Rightarrow>
               if k < 3 then Some (JHexLow acc hi (k + 1) (16 * v + d), fps)
               else
                 (let lo = 16 * v + d
                  in if 0xDC00 \<le> lo \<and> lo < 0xE000
                     then Some (JString (acc @ utf8 (0x10000 + (hi - 0xD800) * 0x400 + (lo - 0xDC00))), fps)
                     else Some (code_unit (acc @ utf8 0xFFFD) lo, fps)))
      | JNullTop k \<Rightarrow>
          if null_letter k c then Some (if k = 3 then JEnd else JNullTop (k + 1), fps) else None
      | JNullElem k \<Rightarrow>
          if null_letter k c
          then (if k = 3 then Some (JAfter, fps @ [[]]) else Some (JNullElem (k + 1), fps))
          else None
      | JAfter \<Rightarrow>
          if is_ws c then Some (JAfter, fps)
          else if c = CHR '','' then Some (JComma, fps)
          else if c = CHR '']'' then Some (JEnd, fps)
          else None
      | JComma \<Rightarrow>
          if is_ws c then Some (JComma, fps)
          else if c = CHR 0x22 then Some (JString [], fps)
          else if go \<and> c = CHR ''n'' then Some (JNullElem 1, fps)
          else None
      | JEnd \<Rightarrow> if is_ws c then Some (JEnd, fps) else None)"

fun json_scan :: "bool \<Rightarrow> json_state \<Rightarrow> string list \<Rightarrow> string \<Rightarrow> string list option" where
  "json_scan go st fps [] = (case st of JEnd \<Rightarrow> Some fps | _ \<Rightarrow> None)"
| "json_scan go st fps (c # cs) =
     (case json_step go st fps c of
        None \<Rightarrow> None
      | Some (st', fps') \<Rightarrow> json_scan go st' fps' cs)"

text \<open>A JSON array of strings, and nothing else.\<close>

definition json_string_array :: "string \<Rightarrow> string list option" where
  "json_string_array content = json_scan False JStart [] content"

text \<open>What \<open>json.Unmarshal\<close> reads into a slice of failure points.\<close>

definition decode_plan :: "string \<Rightarrow> FailurePoint list option" where
  "decode_plan content = json_scan True JStart [] content"

subsection \<open>The plan\<close>

text \<open>
  Modelled from the spec: what the plan file holds for \<open>FailMaybe\<close>. The contents of a
  file that exists are the list the decoder reads from them; the spec counts empty
  contents as an empty well-formed list. \<open>None\<close>: the contents do not parse.
\<close>

definition read_plan :: "(string \<Rightarrow> FailurePoint list option) \<Rightarrow> string \<Rightarrow> FailurePoint list option" where
  "read_plan decode content = (if content = [] then Some [] else decode content)"

text \<open>
  Modelled from the spec: the method \<open>FailMaybe\<close> of \<open>AssuredFailurePlanImpl\<close>, whose file
  is not among the sources (its test is). On every call it reads the plan file afresh;
  no file: success; a list: the injected failure exactly for its members; contents that
  do not parse: the injected failure for every point. \<open>None\<close> is success.
\<close>

definition AssuredFailurePlan_FailMaybe ::
  "(string \<Rightarrow> FailurePoint list option) \<Rightarrow> filesystem \<Rightarrow> AssuredFailurePlanImpl \<Rightarrow> FailurePoint \<Rightarrow> error option"
where
  "AssuredFailurePlan_FailMaybe decode fs plan point =
     (case fs (PlanFilePath plan) of
        None \<Rightarrow> None
      | Some content \<Rightarrow>
          (case read_plan decode content of
             None \<Rightarrow> Some errInjectedFailure
           | Some fps \<Rightarrow> if point \<in> set fps then Some errInjectedFailure else None))"

text \<open>
  The driver of a test and the system under test, interleaved: the driver writes and
  removes files, the system queries the plan. \<open>plan_run\<close> gives the results of the
  queries in order.
\<close>

datatype plan_event = WriteFile string string | Remove string | Query FailurePoint

fun plan_run ::
  "(string \<Rightarrow> FailurePoint list option) \<Rightarrow> AssuredFailurePlanImpl \<Rightarrow> filesystem \<Rightarrow> plan_event list \<Rightarrow> error option list"
where
  "plan_run decode plan fs [] = []"
| "plan_run decode plan fs (WriteFile path content # evs) = plan_run decode plan (fs(path \<mapsto> content)) evs"
| "plan_run decode plan fs (Remove path # evs) = plan_run decode plan (fs(path := None)) evs"
| "plan_run decode plan fs (Query point # evs) =
     AssuredFailurePlan_FailMaybe decode fs plan point # plan_run decode plan fs evs"

text \<open>The file system after the writes and removals of a list of events.\<close>

fun fs_after :: "filesystem \<Rightarrow> plan_event list \<Rightarrow> filesystem" where
  "fs_after fs [] = fs"
| "fs_after fs (WriteFile path content # evs) = fs_after (fs(path \<mapsto> content)) evs"
| "fs_after fs (Remove path # evs) = fs_after (fs(path := None)) evs"
| "fs_after fs (Query point # evs) = fs_after fs evs"

section \<open>Rounding to \<open>float32\<close>\<close>

text \<open>
  What rounding does to a bound: it never crosses an integer multiple of the unit in the
  last place.
\<close>

lemma round_half_even_ge: "of_int k \<le> y \<Longrightarrow> k \<le> round_half_even y"
proof -
  assume "of_int k \<le> y"
  then have "k \<le> \<lfloor>y\<rfloor>" by (simp add: le_floor_iff)
  then show ?thesis unfolding round_half_even_def Let_def by auto
qed

lemma round_half_even_le: "y \<le> of_int k \<Longrightarrow> round_half_even y \<le> k"
proof -
  assume a: "y \<le> of_int k"
  have f: "\<lfloor>y\<rfloor> \<le> k" using a by (simp add: floor_le_iff) 
  show ?thesis
  proof (cases "\<lfloor>y\<rfloor> = k")
    case True
    then have "y - of_int \<lfloor>y\<rfloor> \<le> 0" using a by simp
    then show ?thesis unfolding round_half_even_def Let_def using True by auto
  next
    case False
    then have "\<lfloor>y\<rfloor> + 1 \<le> k" using f by simp
    then show ?thesis unfolding round_half_even_def Let_def by auto
  qed
qed

lemma round_half_even_less: "y < of_int k - 1 / 2 \<Longrightarrow> round_half_even y < k"
proof -
  assume a: "y < of_int k - 1 / 2"
  then have "y < of_int k" by simp
  then have f: "\<lfloor>y\<rfloor> < k" by (simp add: floor_less_iff)
  show ?thesis
  proof (cases "\<lfloor>y\<rfloor> = k - 1")
    case True
    then have "of_int \<lfloor>y\<rfloor> = (of_int k :: rat) - 1" by simp
    then have "y - of_int \<lfloor>y\<rfloor> < 1 / 2" using a by simp
    then show ?thesis unfolding round_half_even_def Let_def using f by auto
  next
    case False
    then have "\<lfloor>y\<rfloor> + 1 < k" using f by simp
    then show ?thesis unfolding round_half_even_def Let_def by auto
  qed
qed

lemma ulp_exp_ge: "- 149 \<le> ulp_exp a"
  by (simp add: ulp_exp_def)

lemma ulp_exp_le:
  assumes "a < 2 ^ n"
  shows "ulp_exp a \<le> max (int n - 24) (- 149)"
proof -
  have "a * 2 ^ 149 < 2 ^ n * 2 ^ 149" using assms by simp
  then have "a * 2 ^ 149 < of_int (2 ^ (n + 149))" by (simp add: power_add)
  then have "\<lfloor>a * 2 ^ 149\<rfloor> < 2 ^ (n + 149)" by (simp add: floor_less_iff)
  then have "bitlen \<lfloor>a * 2 ^ 149\<rfloor> \<le> int (n + 149)"
    unfolding bitlen_le_iff_power by (simp only: nat_int of_nat_0_le_iff simp_thms)
  then show ?thesis by (simp add: ulp_exp_def)
qed

lemma ulp_exp_scaled:
  assumes "0 \<le> a"
  shows "a / power_int 2 (ulp_exp a) < 2 ^ 24"
proof -
  let ?N = "\<lfloor>a * 2 ^ 149\<rfloor>"
  let ?q = "ulp_exp a"
  have N0: "0 \<le> ?N" using assms by simp
  have "a * 2 ^ 149 < power_int 2 (?q + 173)"
  proof (cases "?N = 0")
    case True
    then have "a * 2 ^ 149 < 1" by (metis floor_less_iff of_int_1 zero_less_one floor_eq_iff of_int_0 add_0)
    also have "(1::rat) \<le> power_int 2 (?q + 173)"
      using ulp_exp_ge [of a] by (intro one_le_power_int) auto
    finally show ?thesis .
  next
    case False
    with N0 have pos: "0 < ?N" by (metis less_le)
    have b0: "0 \<le> bitlen ?N" by (rule bitlen_nonneg)
    have "?N < 2 ^ nat (bitlen ?N)" using bitlen_bounds [OF pos] by simp
    then have "?N + 1 \<le> 2 ^ nat (bitlen ?N)" by simp
    then have "(of_int (?N + 1) :: rat) \<le> of_int (2 ^ nat (bitlen ?N))"
      by (simp only: of_int_le_iff)
    then have "(of_int ?N + 1 :: rat) \<le> power_int 2 (bitlen ?N)"
      using b0 by (simp add: power_int_def)
    moreover have "a * 2 ^ 149 < of_int ?N + 1" by linarith
    moreover have "(power_int 2 (bitlen ?N) :: rat) \<le> power_int 2 (?q + 173)"
      by (intro power_int_increasing) (simp_all add: ulp_exp_def)
    ultimately show ?thesis by linarith
  qed
  also have "\<dots> = power_int 2 ?q * 2 ^ 173"
    by (simp add: power_int_add)
  finally have "a * 2 ^ 149 < power_int 2 ?q * (2 ^ 24 * 2 ^ 149)"
    by (simp add: power_add [symmetric])
  then have "a < power_int 2 ?q * 2 ^ 24" by simp
  then show ?thesis by (simp add: pos_divide_less_eq mult.commute)
qed


lemma power_int_neg_exp:
  assumes "q \<le> 0"
  shows "power_int (2::rat) q = 1 / 2 ^ nat (- q)"
proof -
  have "power_int (2::rat) q = power_int 2 (- int (nat (- q)))" using assms by simp
  also have "\<dots> = 1 / 2 ^ nat (- q)"
    by (simp only: power_int_minus_divide power_int_of_nat)
  finally show ?thesis .
qed

lemma round_f32_fin:
  assumes q: "ulp_exp x \<le> 0" and x: "0 \<le> x"
    and m: "round_half_even (x * 2 ^ nat (- ulp_exp x)) = m"
    and b: "of_int m < (2::rat) ^ 128 * 2 ^ nat (- ulp_exp x)"
  shows "round_f32 x = Fin (of_int m / 2 ^ nat (- ulp_exp x))"
proof -
  let ?n = "nat (- ulp_exp x)"
  have p: "power_int (2::rat) (ulp_exp x) = 1 / 2 ^ ?n" by (rule power_int_neg_exp [OF q])
  have r: "of_int (round_half_even (\<bar>x\<bar> / power_int 2 (ulp_exp \<bar>x\<bar>))) * power_int 2 (ulp_exp \<bar>x\<bar>)
      = (of_int m :: rat) / 2 ^ ?n"
    using x m by (simp add: p)
  have lt: "(of_int m :: rat) / 2 ^ ?n < 2 ^ 128"
    using b by (simp add: pos_divide_less_eq)
  have s: "sgn x * (of_int m / 2 ^ ?n) = of_int m / 2 ^ ?n"
  proof (cases "x = 0")
    case True
    then have "m = 0" using m by (simp add: round_half_even_def)
    then show ?thesis by simp
  next
    case False
    then have "sgn x = 1" using x by (simp add: sgn_if)
    then show ?thesis by simp
  qed
  show ?thesis
    unfolding round_f32_def Let_def r using lt s by (simp only: not_le [symmetric] if_False)
qed

lemma round_f32_between:
  assumes x: "0 \<le> x" and l: "of_int L \<le> x" and u: "x \<le> of_int M" and M: "M < 2 ^ 24"
  shows "\<exists>r. round_f32 x = Fin r \<and> of_int L \<le> r \<and> r \<le> of_int M"
proof -
  let ?n = "nat (- ulp_exp x)"
  let ?m = "round_half_even (x * 2 ^ ?n)"
  have "x < of_int (2 ^ 24)" using u M by (metis of_int_less_iff le_less_trans)
  then have "x < 2 ^ 24" by simp
  from ulp_exp_le [OF this] have q: "ulp_exp x \<le> 0" by simp
  have "x * 2 ^ ?n \<le> of_int M * 2 ^ ?n" using u by simp
  then have "x * 2 ^ ?n \<le> of_int (M * 2 ^ ?n)" by simp
  then have up: "?m \<le> M * 2 ^ ?n" by (rule round_half_even_le)
  have "of_int L * 2 ^ ?n \<le> x * 2 ^ ?n" using l by simp
  then have "of_int (L * 2 ^ ?n) \<le> x * 2 ^ ?n" by simp
  then have lo: "L * 2 ^ ?n \<le> ?m" by (rule round_half_even_ge)
  have "(of_int ?m :: rat) \<le> of_int (M * 2 ^ ?n)" using up by (simp only: of_int_le_iff)
  then have up': "(of_int ?m :: rat) \<le> of_int M * 2 ^ ?n" by simp
  have "(of_int (L * 2 ^ ?n) :: rat) \<le> of_int ?m" using lo by (simp only: of_int_le_iff)
  then have lo': "(of_int L :: rat) * 2 ^ ?n \<le> of_int ?m" by simp
  have "(of_int M :: rat) < of_int (2 ^ 24)" using M by (simp only: of_int_less_iff)
  then have "(of_int M :: rat) < 2 ^ 128" by simp
  then have "(of_int M :: rat) * 2 ^ ?n < 2 ^ 128 * 2 ^ ?n" by simp
  with up' have b: "(of_int ?m :: rat) < 2 ^ 128 * 2 ^ ?n" by linarith
  have "round_f32 x = Fin (of_int ?m / 2 ^ ?n)"
    by (rule round_f32_fin [OF q x refl b])
  moreover have "of_int L \<le> (of_int ?m :: rat) / 2 ^ ?n"
    using lo' by (simp add: pos_le_divide_eq)
  moreover have "(of_int ?m :: rat) / 2 ^ ?n \<le> of_int M"
    using up' by (simp add: pos_divide_le_eq)
  ultimately show ?thesis by blast
qed

lemma round_f32_below_one:
  assumes x: "0 \<le> x" and u: "x < 1 - 1 / 2 ^ 25"
  shows "\<exists>r. round_f32 x = Fin r \<and> 0 \<le> r \<and> r < 1"
proof -
  let ?n = "nat (- ulp_exp x)"
  let ?m = "round_half_even (x * 2 ^ ?n)"
  have "x < 2 ^ 0" using u by simp
  from ulp_exp_le [OF this] have q24: "ulp_exp x \<le> - 24" by simp
  then have q: "ulp_exp x \<le> 0" by simp
  have n24: "24 \<le> ?n" using q24 by simp
  have "of_int 0 \<le> x * 2 ^ ?n" using x by simp
  then have m0: "0 \<le> ?m" by (rule round_half_even_ge)
  have mlt: "?m < 2 ^ ?n"
  proof (cases "?n = 24")
    case True
    have "x * 2 ^ 24 < (1 - 1 / 2 ^ 25) * 2 ^ 24" using u by simp
    also have "\<dots> = of_int (2 ^ 24) - 1 / 2" by simp
    finally have "round_half_even (x * 2 ^ 24) < 2 ^ 24" by (rule round_half_even_less)
    then show ?thesis using True by simp
  next
    case False
    then have n25: "25 \<le> ?n" using n24 by simp
    have "x / power_int 2 (ulp_exp x) < 2 ^ 24" by (rule ulp_exp_scaled [OF x])
    then have "x * 2 ^ ?n \<le> of_int (2 ^ 24)" by (simp add: power_int_neg_exp [OF q])
    then have "?m \<le> 2 ^ 24" by (rule round_half_even_le)
    also have "(2::int) ^ 24 < 2 ^ 25" by simp
    also have "(2::int) ^ 25 \<le> 2 ^ ?n" using n25 by (intro power_increasing) simp_all
    finally show ?thesis .
  qed
  then have "(of_int ?m :: rat) < of_int (2 ^ ?n)" by (simp only: of_int_less_iff)
  then have mlt': "(of_int ?m :: rat) < 2 ^ ?n" by simp
  have "(2::rat) ^ ?n \<le> 2 ^ 128 * 2 ^ ?n" by simp
  with mlt' have b: "(of_int ?m :: rat) < 2 ^ 128 * 2 ^ ?n" by linarith
  have "round_f32 x = Fin (of_int ?m / 2 ^ ?n)"
    by (rule round_f32_fin [OF q x refl b])
  moreover have "0 \<le> (of_int ?m :: rat) / 2 ^ ?n" using m0 by simp
  moreover have "(of_int ?m :: rat) / 2 ^ ?n < 1" using mlt' by simp
  ultimately show ?thesis by blast
qed


text \<open>
  The rounding on values whose \<open>float32\<close> is known: 0.1 and 0.2 (\<open>0x3DCCCCCD\<close>,
  \<open>0x3E4CCCCD\<close>), a third, the tie \<open>2\<^sup>2\<^sup>4 + 1\<close> that goes to the even neighbour, the
  largest finite value and the first value that overflows, and half the smallest
  subnormal, which goes to zero.
\<close>

lemma round_f32_examples:
  "round_f32 (1 / 10) = Fin (13421773 / 2 ^ 27)"
  "round_f32 (2 / 10) = Fin (13421773 / 2 ^ 26)"
  "round_f32 (1 / 3) = Fin (11184811 / 2 ^ 25)"
  "round_f32 (2 ^ 24 + 1) = Fin (2 ^ 24)"
  "round_f32 (2 ^ 128 - 2 ^ 104) = Fin (2 ^ 128 - 2 ^ 104)"
  "round_f32 (2 ^ 128 - 2 ^ 103) = PInf"
  "round_f32 (- (2 ^ 128)) = NInf"
  "round_f32 (1 / 2 ^ 150) = Fin 0"
  by code_simp+

section \<open>The probabilistic generator\<close>

lemma round_f32_OneMillion: "round_f32 1000000 = Fin 1000000"
  by code_simp

lemma float32_OneMillion: "float32_of_int32 OneMillion = Fin 1000000"
  by (simp add: float32_of_int32_def OneMillion_def round_f32_OneMillion)

lemma sint_int32_of_int:
  "- 2147483648 \<le> x \<Longrightarrow> x < 2147483648 \<Longrightarrow> sint (word_of_int x :: int32) = x"
  by (simp add: sint_sbintrunc' signed_take_bit_int_eq_self)

lemma sint_OneMillion: "sint OneMillion = 1000000"
  by (simp add: OneMillion_def)

lemma Int31n_panics: "sint n \<le> 0 \<Longrightarrow> Int31n n r = None"
  by (simp add: Int31n_def)

lemma Int31n_range:
  assumes "0 < sint n"
  shows "\<exists>v. Int31n n r = Some v \<and> 0 \<le> sint v \<and> sint v < sint n"
proof -
  let ?v = "int r mod sint n"
  have b: "0 \<le> ?v" "?v < sint n" using assms by simp_all
  have "sint n < 2147483648" using sint_lt [of n] by simp
  with b have "sint (word_of_int ?v :: int32) = ?v"
    by (intro sint_int32_of_int) linarith+
  with b assms show ?thesis by (simp add: Int31n_def)
qed

lemma ppm_rejects:
  "f32_lt p (Fin 0) \<or> f32_lt (Fin 1) p \<Longrightarrow> ppm impl p = Inl (InvalidProbability p)"
  by (simp add: ppm_def)

lemma outside_unit_interval:
  "\<not> in_unit_interval p \<Longrightarrow> p \<noteq> NaN \<Longrightarrow> f32_lt p (Fin 0) \<or> f32_lt (Fin 1) p"
  by (cases p) (auto simp: in_unit_interval_def)

lemma ppm_NaN: "ppm impl NaN = Inr (impl NaN)"
  by (simp add: ppm_def int32_of_float32_def)

lemma ppm_accepts:
  assumes "0 \<le> x" and "x \<le> 1"
  shows "\<exists>r. f32_mul (Fin x) (float32_of_int32 OneMillion) = Fin r
           \<and> ppm impl (Fin x) = Inr (word_of_int \<lfloor>r\<rfloor>)
           \<and> sint (word_of_int \<lfloor>r\<rfloor> :: int32) = \<lfloor>r\<rfloor>
           \<and> \<lfloor>x * 1000000\<rfloor> \<le> \<lfloor>r\<rfloor> \<and> \<lfloor>r\<rfloor> \<le> \<lceil>x * 1000000\<rceil>
           \<and> 0 \<le> \<lfloor>r\<rfloor> \<and> \<lfloor>r\<rfloor> \<le> 1000000"
proof -
  let ?y = "x * 1000000"
  have y0: "0 \<le> ?y" using assms by simp
  have y1: "?y \<le> 1000000" using assms by simp
  have c: "\<lceil>?y\<rceil> \<le> 1000000" using y1 by (simp add: ceiling_le_iff)
  then have c24: "\<lceil>?y\<rceil> < 2 ^ 24" by simp
  have f0: "0 \<le> \<lfloor>?y\<rfloor>" using y0 by simp
  obtain r where r: "round_f32 ?y = Fin r" "of_int \<lfloor>?y\<rfloor> \<le> r" "r \<le> of_int \<lceil>?y\<rceil>"
    using round_f32_between [OF y0 of_int_floor_le le_of_int_ceiling c24] by blast
  have lo: "\<lfloor>?y\<rfloor> \<le> \<lfloor>r\<rfloor>" using r(2) by (simp add: le_floor_iff)
  have hi: "\<lfloor>r\<rfloor> \<le> \<lceil>?y\<rceil>" using r(3) by (simp add: floor_le_iff)
  have r0: "0 \<le> r" using r(2) f0 by (meson of_int_0_le_iff order_trans)
  have b: "0 \<le> \<lfloor>r\<rfloor>" "\<lfloor>r\<rfloor> \<le> 1000000" using lo hi f0 c by linarith+
  have s: "sint (word_of_int \<lfloor>r\<rfloor> :: int32) = \<lfloor>r\<rfloor>"
    using b by (intro sint_int32_of_int) linarith+
  have m: "f32_mul (Fin x) (float32_of_int32 OneMillion) = Fin r"
    using r(1) by (simp add: float32_OneMillion)
  have "int32_of_float32 impl (Fin r) = word_of_int \<lfloor>r\<rfloor>"
    using r0 b by (simp add: int32_of_float32_def Let_def)
  then have "ppm impl (Fin x) = Inr (word_of_int \<lfloor>r\<rfloor>)"
    using assms m by (simp add: ppm_def)
  with m s lo hi b show ?thesis by blast
qed

lemma FailMaybe_never_fails:
  assumes "sint (failurePpm fg) \<le> 0"
  shows "FailMaybe fg r1 r2 r3 \<noteq> Returned sl (Some e)"
proof -
  obtain v where v: "Int31n OneMillion r3 = Some v" "0 \<le> sint v"
    using Int31n_range [of OneMillion r3] by (auto simp: sint_OneMillion)
  then have "\<not> v <s failurePpm fg" using assms by (simp add: word_sless_alt)
  with v show ?thesis
    by (auto simp: FailMaybe_def split: option.splits)
qed

lemma FailMaybe_fails_when_returns:
  assumes "1000000 \<le> sint (failurePpm fg)" and "FailMaybe fg r1 r2 r3 = Returned sl e"
  shows "e = Some errInjectedFailure"
proof -
  obtain v where v: "Int31n OneMillion r3 = Some v" "sint v < 1000000"
    using Int31n_range [of OneMillion r3] by (auto simp: sint_OneMillion)
  then have "v <s failurePpm fg" using assms(1) by (simp add: word_sless_alt)
  with v assms(2) show ?thesis
    by (auto simp: FailMaybe_def split: option.splits if_splits)
qed

lemma FailMaybe_returns:
  assumes "sint (delayPpm fg) \<le> 0 \<or> 0 < sint (maxDelayMicros fg)"
  shows "\<exists>sl e. FailMaybe fg r1 r2 r3 = Returned sl e"
proof -
  obtain v1 where v1: "Int31n OneMillion r1 = Some v1" "0 \<le> sint v1"
    using Int31n_range [of OneMillion r1] by (auto simp: sint_OneMillion)
  obtain v3 where v3: "Int31n OneMillion r3 = Some v3"
    using Int31n_range [of OneMillion r3] by (auto simp: sint_OneMillion)
  show ?thesis
  proof (cases "v1 <s delayPpm fg")
    case True
    then have "0 < sint (maxDelayMicros fg)" using assms v1(2) by (auto simp: word_sless_alt)
    then obtain v2 where "Int31n (maxDelayMicros fg) r2 = Some v2"
      using Int31n_range [of "maxDelayMicros fg" r2] by auto
    with v1 v3 True show ?thesis by (simp add: FailMaybe_def)
  next
    case False
    with v1 v3 show ?thesis by (simp add: FailMaybe_def)
  qed
qed

lemma FailMaybe_no_delay:
  assumes "sint (delayPpm fg) \<le> 0"
  shows "\<exists>e. FailMaybe fg r1 r2 r3 = Returned None e"
proof -
  obtain v1 where v1: "Int31n OneMillion r1 = Some v1" "0 \<le> sint v1"
    using Int31n_range [of OneMillion r1] by (auto simp: sint_OneMillion)
  obtain v3 where v3: "Int31n OneMillion r3 = Some v3"
    using Int31n_range [of OneMillion r3] by (auto simp: sint_OneMillion)
  have "\<not> v1 <s delayPpm fg" using assms v1(2) by (simp add: word_sless_alt)
  with v1 v3 show ?thesis by (simp add: FailMaybe_def)
qed

lemma FailMaybe_delay_bound:
  assumes "FailMaybe fg r1 r2 r3 = Returned (Some us) e"
  shows "0 \<le> sint us \<and> sint us < sint (maxDelayMicros fg)"
proof -
  from assms have i: "Int31n (maxDelayMicros fg) r2 = Some us"
    by (auto simp: FailMaybe_def split: option.splits if_splits)
  then have "0 < sint (maxDelayMicros fg)" by (auto simp: Int31n_def split: if_splits)
  from Int31n_range [OF this, of r2] i show ?thesis by auto
qed

lemma FailMaybe_panics:
  assumes "sint (maxDelayMicros fg) \<le> 0" and "1000000 \<le> sint (delayPpm fg)"
  shows "FailMaybe fg r1 r2 r3 = Panicked"
proof -
  obtain v1 where v1: "Int31n OneMillion r1 = Some v1" "sint v1 < 1000000"
    using Int31n_range [of OneMillion r1] by (auto simp: sint_OneMillion)
  then have "v1 <s delayPpm fg" using assms(2) by (simp add: word_sless_alt)
  with v1 assms(1) show ?thesis by (simp add: FailMaybe_def Int31n_panics)
qed

lemma FailMaybe_default: "FailMaybe NewFailureGenerator r1 r2 r3 = Returned None None"
proof -
  obtain e where e: "FailMaybe NewFailureGenerator r1 r2 r3 = Returned None e"
    using FailMaybe_no_delay [of NewFailureGenerator r1 r2 r3]
    by (auto simp: NewFailureGenerator_def)
  have "FailMaybe NewFailureGenerator r1 r2 r3 \<noteq> Returned None (Some x)" for x
    by (rule FailMaybe_never_fails) (simp add: NewFailureGenerator_def)
  with e show ?thesis by (cases e) auto
qed

lemma ppm_one: "ppm impl (Fin 1) = Inr 1000000"
  by (simp add: ppm_def float32_OneMillion round_f32_OneMillion int32_of_float32_def)

lemma BlockIncomingConns_failurePpm:
  "acceptFg (BlockIncomingConns impl t) = (acceptFg t)\<lparr>failurePpm := 1000000\<rparr>"
  by (simp add: BlockIncomingConns_def SetFailureProbability_def ppm_one)

section \<open>Configuration of the generator\<close>

text \<open>
  What the guard of \<open>ppm\<close> does refuse. For every argument \<open>p\<close> that is not in
  \<open>[0.0, 1.0]\<close> and is not NaN (every finite value outside the interval and both
  infinities), \<open>SetFailureProbability\<close> returns the invalid-probability error, wrapped,
  and leaves the generator as it was; for every \<open>DelayConfig\<close> whose \<open>DelayProbability\<close>
  is such a value, \<open>SetDelayConfig\<close> does the same, and for every \<open>DelayConfig\<close> whose
  \<open>MaxDelayMicros\<close> is negative it returns an error and leaves the generator as it was.
  Nothing is clamped: the state returned with the error is the state given.
\<close>

theorem out_of_range_rejected:
  "(\<not> in_unit_interval p \<and> p \<noteq> NaN \<longrightarrow>
      SetFailureProbability impl p fg
        = (Some (Wrapf (InvalidProbability p) ''Couldn't compute failure-ppm''), fg))
   \<and> (\<not> in_unit_interval (DelayProbability c) \<and> DelayProbability c \<noteq> NaN \<longrightarrow>
      SetDelayConfig impl c fg
        = (Some (Wrapf (InvalidProbability (DelayProbability c)) ''Couldn't compute delay-ppm''), fg))
   \<and> (MaxDelayMicros c <s 0 \<longrightarrow> (\<exists>e. SetDelayConfig impl c fg = (Some e, fg)))"
proof (intro conjI impI)
  assume "\<not> in_unit_interval p \<and> p \<noteq> NaN"
  then have "ppm impl p = Inl (InvalidProbability p)"
    by (intro ppm_rejects outside_unit_interval) simp_all
  then show "SetFailureProbability impl p fg
        = (Some (Wrapf (InvalidProbability p) ''Couldn't compute failure-ppm''), fg)"
    by (simp add: SetFailureProbability_def)
next
  assume "\<not> in_unit_interval (DelayProbability c) \<and> DelayProbability c \<noteq> NaN"
  then have "ppm impl (DelayProbability c) = Inl (InvalidProbability (DelayProbability c))"
    by (intro ppm_rejects outside_unit_interval) simp_all
  then show "SetDelayConfig impl c fg
        = (Some (Wrapf (InvalidProbability (DelayProbability c)) ''Couldn't compute delay-ppm''), fg)"
    by (simp add: SetDelayConfig_def)
next
  assume "MaxDelayMicros c <s 0"
  then show "\<exists>e. SetDelayConfig impl c fg = (Some e, fg)"
    by (simp add: SetDelayConfig_def split: sum.split)
qed

text \<open>
  The same at the probabilities 1.5 and minus infinity, at the delay probability -0.1,
  and at the delay bound -1, on a configured generator.
\<close>

theorem out_of_range_rejected_witness:
  "SetFailureProbability (\<lambda>f. 0) (Fin (3 / 2)) \<lparr>failurePpm = 200000, delayPpm = 7, maxDelayMicros = 50\<rparr>
     = (Some (Wrapf (InvalidProbability (Fin (3 / 2))) ''Couldn't compute failure-ppm''),
        \<lparr>failurePpm = 200000, delayPpm = 7, maxDelayMicros = 50\<rparr>)
   \<and> SetFailureProbability (\<lambda>f. 0) NInf \<lparr>failurePpm = 200000, delayPpm = 7, maxDelayMicros = 50\<rparr>
     = (Some (Wrapf (InvalidProbability NInf) ''Couldn't compute failure-ppm''),
        \<lparr>failurePpm = 200000, delayPpm = 7, maxDelayMicros = 50\<rparr>)
   \<and> SetDelayConfig (\<lambda>f. 0) \<lparr>MaxDelayMicros = 50, DelayProbability = Fin (- 1 / 10)\<rparr>
        \<lparr>failurePpm = 200000, delayPpm = 7, maxDelayMicros = 50\<rparr>
     = (Some (Wrapf (InvalidProbability (Fin (- 1 / 10))) ''Couldn't compute delay-ppm''),
        \<lparr>failurePpm = 200000, delayPpm = 7, maxDelayMicros = 50\<rparr>)
   \<and> (\<exists>e. SetDelayConfig (\<lambda>f. 0) \<lparr>MaxDelayMicros = - 1, DelayProbability = Fin (1 / 2)\<rparr>
        \<lparr>failurePpm = 200000, delayPpm = 7, maxDelayMicros = 50\<rparr>
     = (Some e, \<lparr>failurePpm = 200000, delayPpm = 7, maxDelayMicros = 50\<rparr>))"
proof -
  let ?fg = "\<lparr>failurePpm = 200000, delayPpm = 7, maxDelayMicros = 50\<rparr>"
  let ?i = "\<lambda>f::float32. 0::int32"
  have "\<not> in_unit_interval (Fin (3 / 2)) \<and> Fin (3 / 2) \<noteq> NaN"
    by (simp add: in_unit_interval_def)
  with out_of_range_rejected [where p = "Fin (3 / 2)" and impl = ?i and fg = ?fg]
  have a: "SetFailureProbability ?i (Fin (3 / 2)) ?fg
     = (Some (Wrapf (InvalidProbability (Fin (3 / 2))) ''Couldn't compute failure-ppm''), ?fg)"
    by blast
  have "\<not> in_unit_interval NInf \<and> NInf \<noteq> NaN"
    by (simp add: in_unit_interval_def)
  with out_of_range_rejected [where p = NInf and impl = ?i and fg = ?fg]
  have b: "SetFailureProbability ?i NInf ?fg
     = (Some (Wrapf (InvalidProbability NInf) ''Couldn't compute failure-ppm''), ?fg)"
    by blast
  let ?c = "\<lparr>MaxDelayMicros = 50, DelayProbability = Fin (- 1 / 10)\<rparr>"
  have "\<not> in_unit_interval (DelayProbability ?c) \<and> DelayProbability ?c \<noteq> NaN"
    by (simp add: in_unit_interval_def)
  with out_of_range_rejected [where c = ?c and impl = ?i and fg = ?fg]
  have c: "SetDelayConfig ?i ?c ?fg
     = (Some (Wrapf (InvalidProbability (Fin (- 1 / 10))) ''Couldn't compute delay-ppm''), ?fg)"
    by simp
  let ?d = "\<lparr>MaxDelayMicros = - 1, DelayProbability = Fin (1 / 2)\<rparr>"
  have "MaxDelayMicros ?d <s 0" by (simp add: word_sless_alt)
  with out_of_range_rejected [where c = ?d and impl = ?i and fg = ?fg]
  have d: "\<exists>e. SetDelayConfig ?i ?d ?fg = (Some e, ?fg)"
    by blast
  from a b c d show ?thesis by blast
qed

text \<open>
  C6. Every probability argument outside \<open>[0.0, 1.0]\<close> should be refused with an
  invalid-argument error that leaves the stored configuration unchanged. The guard of
  \<open>ppm\<close>, whose error message reads \<open>not in [0.0, 1.0]\<close>, misses NaN: NaN is not in the
  interval, but both comparisons of \<open>p < 0 || p > 1.0\<close> are false for it. On a configured
  generator \<open>SetFailureProbability(NaN)\<close> returns no error and replaces the stored
  failure-ppm by what the platform's conversion to \<open>int32\<close> makes of NaN (here the
  smallest \<open>int32\<close>), and \<open>SetDelayConfig\<close> with the delay probability NaN returns no
  error and replaces both stored delay fields.
\<close>

theorem NaN_not_rejected:
  "\<not> in_unit_interval NaN
   \<and> SetFailureProbability (\<lambda>f. 0x80000000) NaN \<lparr>failurePpm = 200000, delayPpm = 7, maxDelayMicros = 50\<rparr>
       = (None, \<lparr>failurePpm = 0x80000000, delayPpm = 7, maxDelayMicros = 50\<rparr>)
   \<and> SetDelayConfig (\<lambda>f. 0x80000000) \<lparr>MaxDelayMicros = 9, DelayProbability = NaN\<rparr>
        \<lparr>failurePpm = 200000, delayPpm = 7, maxDelayMicros = 50\<rparr>
       = (None, \<lparr>failurePpm = 200000, delayPpm = 0x80000000, maxDelayMicros = 9\<rparr>)"
  by (simp add: in_unit_interval_def SetFailureProbability_def SetDelayConfig_def ppm_NaN word_sless_alt)

lemma round_f32_1e_6: "round_f32 (1 / 1000000) = Fin (8796093 / 8796093022208)"
  by code_simp

lemma float32_below_1e_6:
  assumes f: "round_f32 x = Fin x" and x0: "0 < x" and lt: "x < 8796093 / 8796093022208"
  shows "x \<le> 8796092 / 8796093022208"
proof -
  let ?n = "nat (- ulp_exp x)"
  let ?m = "round_half_even (x * 2 ^ ?n)"
  have x1: "x \<le> 1" using lt by simp
  have "x < 2 ^ 0" using lt by simp
  from ulp_exp_le [OF this] have q: "ulp_exp x \<le> 0" by simp
  have xn: "x * 2 ^ ?n \<le> of_int (2 ^ ?n)" using x1 by (simp add: mult_left_le_one_le)
  then have "?m \<le> 2 ^ ?n" by (rule round_half_even_le)
  then have "(of_int ?m :: rat) \<le> of_int (2 ^ ?n)" by (simp only: of_int_le_iff)
  then have "(of_int ?m :: rat) \<le> 2 ^ ?n" by simp
  moreover have "(2::rat) ^ ?n < 2 ^ 128 * 2 ^ ?n" by simp
  ultimately have b: "(of_int ?m :: rat) < 2 ^ 128 * 2 ^ ?n" by linarith
  have "round_f32 x = Fin (of_int ?m / 2 ^ ?n)"
    using x0 by (intro round_f32_fin [OF q _ refl b]) simp
  with f have "x = of_int ?m / 2 ^ ?n" by simp
  moreover have "(2::rat) ^ ?n \<noteq> 0" by simp
  ultimately have m: "x * 2 ^ ?n = of_int ?m" by (metis nonzero_eq_divide_eq)
  show ?thesis
  proof (cases "?n \<le> 43")
    case True
    then have "(2::rat) ^ 43 = 2 ^ ?n * 2 ^ (43 - ?n)"
      by (simp add: power_add [symmetric])
    then have "x * 2 ^ 43 = of_int ?m * 2 ^ (43 - ?n)" using m by simp
    then have k: "x * 2 ^ 43 = of_int (?m * 2 ^ (43 - ?n))" by simp
    have "x * 2 ^ 43 < 8796093" using lt by simp
    with k have "(of_int (?m * 2 ^ (43 - ?n)) :: rat) < of_int 8796093" by simp
    then have "?m * 2 ^ (43 - ?n) < 8796093" by (simp only: of_int_less_iff)
    then have "?m * 2 ^ (43 - ?n) \<le> 8796092" by simp
    then have "(of_int (?m * 2 ^ (43 - ?n)) :: rat) \<le> of_int 8796092" by (simp only: of_int_le_iff)
    with k have "x * 2 ^ 43 \<le> 8796092" by simp
    then show ?thesis by simp
  next
    case False
    then have n44: "44 \<le> ?n" by simp
    have "x / power_int 2 (ulp_exp x) < 2 ^ 24" using x0 by (intro ulp_exp_scaled) simp
    then have s: "x * 2 ^ ?n < 2 ^ 24" by (simp add: power_int_neg_exp [OF q])
    have "(2::rat) ^ 44 \<le> 2 ^ ?n" using n44 by (intro power_increasing) simp_all
    then have "x * 2 ^ 44 \<le> x * 2 ^ ?n" using x0 by simp
    with s have "x * 2 ^ 44 < 2 ^ 24" by linarith
    then show ?thesis by simp
  qed
qed

text \<open>
  C10. For every probability \<open>p\<close> in \<open>[0.0, 1.0]\<close>, \<open>SetFailureProbability\<close> succeeds and
  stores \<open>int32(p * float32(1000000))\<close>: the product \<open>r\<close> as \<open>float32\<close> arithmetic rounds
  it, with its fraction cut off. The stored value is the floor or the ceiling of the
  exact \<open>p \<times> 1,000,000\<close>. For every \<open>float32\<close> \<open>p\<close> with \<open>0 < p < float32(0.000001)\<close> the
  stored value is 0, and no call of \<open>FailMaybe\<close> returns the injected failure from then
  on.
\<close>

theorem SetFailureProbability_stores_truncation:
  assumes "in_unit_interval p"
  shows "\<exists>x r. p = Fin x \<and> f32_mul p (float32_of_int32 OneMillion) = Fin r
     \<and> SetFailureProbability impl p fg = (None, fg\<lparr>failurePpm := word_of_int \<lfloor>r\<rfloor>\<rparr>)
     \<and> sint (word_of_int \<lfloor>r\<rfloor> :: int32) = \<lfloor>r\<rfloor>
     \<and> \<lfloor>x * 1000000\<rfloor> \<le> \<lfloor>r\<rfloor> \<and> \<lfloor>r\<rfloor> \<le> \<lceil>x * 1000000\<rceil>
     \<and> (is_float32 p \<and> f32_lt (Fin 0) p \<and> f32_lt p (round_f32 (1 / 1000000)) \<longrightarrow>
          \<lfloor>r\<rfloor> = 0
          \<and> (\<forall>r1 r2 r3 sl e.
                FailMaybe (fg\<lparr>failurePpm := word_of_int \<lfloor>r\<rfloor>\<rparr>) r1 r2 r3 \<noteq> Returned sl (Some e)))"
proof -
  from assms obtain x where p: "p = Fin x" and x: "0 \<le> x" "x \<le> 1"
    by (cases p) (auto simp: in_unit_interval_def)
  from ppm_accepts [OF x, of impl] obtain r where
    r: "f32_mul (Fin x) (float32_of_int32 OneMillion) = Fin r"
       "ppm impl (Fin x) = Inr (word_of_int \<lfloor>r\<rfloor>)"
       "sint (word_of_int \<lfloor>r\<rfloor> :: int32) = \<lfloor>r\<rfloor>"
       "\<lfloor>x * 1000000\<rfloor> \<le> \<lfloor>r\<rfloor>" "\<lfloor>r\<rfloor> \<le> \<lceil>x * 1000000\<rceil>"
    by blast
  have set: "SetFailureProbability impl (Fin x) fg = (None, fg\<lparr>failurePpm := word_of_int \<lfloor>r\<rfloor>\<rparr>)"
    using r(2) by (simp add: SetFailureProbability_def)
  have sub: "\<lfloor>r\<rfloor> = 0
      \<and> (\<forall>r1 r2 r3 sl e.
            FailMaybe (fg\<lparr>failurePpm := word_of_int \<lfloor>r\<rfloor>\<rparr>) r1 r2 r3 \<noteq> Returned sl (Some e))"
    if h: "is_float32 (Fin x)" "f32_lt (Fin 0) (Fin x)" "f32_lt (Fin x) (round_f32 (1 / 1000000))"
  proof -
    have f: "round_f32 x = Fin x" and x0: "0 < x" and lt: "x < 8796093 / 8796093022208"
      using h by (simp_all add: round_f32_1e_6)
    have "x \<le> 8796092 / 8796093022208" by (rule float32_below_1e_6 [OF f x0 lt])
    then have "x * 1000000 \<le> 8796092 / 8796093022208 * 1000000" by simp
    also have "\<dots> < 1 - 1 / 2 ^ 25" by simp
    finally have u: "x * 1000000 < 1 - 1 / 2 ^ 25" .
    have "0 \<le> x * 1000000" using x0 by simp
    from round_f32_below_one [OF this u] r(1) have "0 \<le> r" "r < 1"
      by (auto simp: float32_OneMillion)
    then have z: "\<lfloor>r\<rfloor> = 0" by (simp add: floor_eq_iff)
    have "FailMaybe (fg\<lparr>failurePpm := word_of_int \<lfloor>r\<rfloor>\<rparr>) r1 r2 r3 \<noteq> Returned sl (Some e)"
      for r1 r2 r3 sl e
      by (rule FailMaybe_never_fails) (simp add: z)
    with z show ?thesis by blast
  qed
  show ?thesis
    using p r set sub by blast
qed

text \<open>
  The statement of C10 at \<open>p = 2\<^sup>-\<^sup>2\<^sup>1\<close> (about 0.00000048) on a fresh generator.
\<close>

theorem SetFailureProbability_stores_truncation_witness:
  "SetFailureProbability (\<lambda>f. 0) (Fin (1 / 2097152)) NewFailureGenerator
     = (None, NewFailureGenerator\<lparr>failurePpm := 0\<rparr>)
   \<and> FailMaybe (NewFailureGenerator\<lparr>failurePpm := 0\<rparr>) 5 6 7 \<noteq> Returned None (Some errInjectedFailure)"
proof -
  let ?p = "Fin (1 / 2097152)"
  have u: "in_unit_interval ?p" by (simp add: in_unit_interval_def)
  have f: "is_float32 ?p" by code_simp
  have l: "f32_lt (Fin 0) ?p \<and> f32_lt ?p (round_f32 (1 / 1000000))"
    by (simp add: round_f32_1e_6)
  from SetFailureProbability_stores_truncation [OF u, of "\<lambda>f. 0" NewFailureGenerator]
  obtain r :: rat where
    a: "SetFailureProbability (\<lambda>f. 0) ?p NewFailureGenerator
          = (None, NewFailureGenerator\<lparr>failurePpm := word_of_int \<lfloor>r\<rfloor>\<rparr>)"
    and b: "is_float32 ?p \<and> f32_lt (Fin 0) ?p \<and> f32_lt ?p (round_f32 (1 / 1000000)) \<longrightarrow>
          \<lfloor>r\<rfloor> = 0
          \<and> (\<forall>r1 r2 r3 sl e.
                FailMaybe (NewFailureGenerator\<lparr>failurePpm := word_of_int \<lfloor>r\<rfloor>\<rparr>) r1 r2 r3
                  \<noteq> Returned sl (Some e))"
    by blast
  from b f l have z: "\<lfloor>r\<rfloor> = 0"
    and n: "FailMaybe (NewFailureGenerator\<lparr>failurePpm := word_of_int \<lfloor>r\<rfloor>\<rparr>) 5 6 7
              \<noteq> Returned None (Some errInjectedFailure)"
    by blast+
  from a z n show ?thesis by simp
qed

text \<open>
  C10 as it is stated, for every \<open>p\<close> with \<open>0 < p < 0.000001\<close>, fails at the largest
  \<open>float32\<close> below one millionth, \<open>8796093 \<times> 2\<^sup>-\<^sup>4\<^sup>3\<close> (the value of \<open>float32(0.000001)\<close>):
  the exact product with 1,000,000 is below one and its integer part is 0, but the
  \<open>float32\<close> product rounds to 1.0, so 1 is stored and \<open>FailMaybe\<close> fails when it
  draws 0. Likewise at \<open>float32(0.7) = 11744051 \<times> 2\<^sup>-\<^sup>2\<^sup>4\<close>: the integer part of the
  exact product is 699,999 and 700,000 is stored.
\<close>

theorem sub_ppm_counterexample:
  "in_unit_interval (Fin (8796093 / 8796093022208))
   \<and> is_float32 (Fin (8796093 / 8796093022208))
   \<and> (0::rat) < 8796093 / 8796093022208
   \<and> (8796093 / 8796093022208 :: rat) < 1 / 1000000
   \<and> \<lfloor>(8796093 / 8796093022208 :: rat) * 1000000\<rfloor> = 0
   \<and> SetFailureProbability (\<lambda>f. 0) (Fin (8796093 / 8796093022208)) NewFailureGenerator
       = (None, NewFailureGenerator\<lparr>failurePpm := 1\<rparr>)
   \<and> FailMaybe (NewFailureGenerator\<lparr>failurePpm := 1\<rparr>) 0 0 0 = Returned None (Some errInjectedFailure)
   \<and> is_float32 (Fin (11744051 / 16777216))
   \<and> \<lfloor>(11744051 / 16777216 :: rat) * 1000000\<rfloor> = 699999
   \<and> SetFailureProbability (\<lambda>f. 0) (Fin (11744051 / 16777216)) NewFailureGenerator
       = (None, NewFailureGenerator\<lparr>failurePpm := 700000\<rparr>)"
  by code_simp

section \<open>The trials of \<open>FailMaybe\<close>\<close>

text \<open>
  C7. \<open>FailMaybe\<close> should return normally for every configuration that \<open>SetDelayConfig\<close>
  accepts, \<open>maxDelayMicros = 0\<close> included. \<open>SetDelayConfig\<close> accepts the delay bound 0
  with the delay probability 1.0, and every call of \<open>FailMaybe\<close> on the generator so
  configured panics, whatever is drawn: the delay trial fires and calls
  \<open>rand.Int31n(0)\<close>.
\<close>

theorem FailMaybe_panics_on_zero_delay_bound:
  "SetDelayConfig impl \<lparr>MaxDelayMicros = 0, DelayProbability = Fin 1\<rparr> NewFailureGenerator
     = (None, \<lparr>failurePpm = 0, delayPpm = 1000000, maxDelayMicros = 0\<rparr>)
   \<and> FailMaybe \<lparr>failurePpm = 0, delayPpm = 1000000, maxDelayMicros = 0\<rparr> r1 r2 r3 = Panicked"
proof -
  have "ppm impl (Fin 1) = Inr 1000000"
    by (simp add: ppm_def float32_OneMillion round_f32_OneMillion int32_of_float32_def)
  then have "SetDelayConfig impl \<lparr>MaxDelayMicros = 0, DelayProbability = Fin 1\<rparr> NewFailureGenerator
     = (None, \<lparr>failurePpm = 0, delayPpm = 1000000, maxDelayMicros = 0\<rparr>)"
    by (simp add: SetDelayConfig_def NewFailureGenerator_def word_sless_alt)
  moreover have "FailMaybe \<lparr>failurePpm = 0, delayPpm = 1000000, maxDelayMicros = 0\<rparr> r1 r2 r3 = Panicked"
    by (rule FailMaybe_panics) simp_all
  ultimately show ?thesis by simp
qed

text \<open>
  C9. After \<open>BlockIncomingConns\<close> every call of \<open>FailMaybe\<close> on the accept-time generator
  should return the injected failure. The stored failure-ppm is 1,000,000 after the call
  (\<open>BlockIncomingConns_failurePpm\<close>), and a call that returns does return the failure
  (\<open>FailMaybe_fails_when_returns\<close>); but on an accept-time generator whose delay bound is
  0 and whose delay probability is 1.0 the call panics before the failure trial, and so
  does the accept loop, for every connection and whatever is drawn.
\<close>

theorem BlockIncomingConns_panics_on_zero_delay_bound:
  "acceptFg (BlockIncomingConns impl (NewTCPProxy \<lparr>failurePpm = 0, delayPpm = 1000000, maxDelayMicros = 0\<rparr>))
     = \<lparr>failurePpm = 1000000, delayPpm = 1000000, maxDelayMicros = 0\<rparr>
   \<and> FailMaybe \<lparr>failurePpm = 1000000, delayPpm = 1000000, maxDelayMicros = 0\<rparr> r1 r2 r3 = Panicked
   \<and> serve_iter
        (Accepted c (FailMaybe \<lparr>failurePpm = 1000000, delayPpm = 1000000, maxDelayMicros = 0\<rparr> r1 r2 r3))
        (BlockIncomingConns impl (NewTCPProxy \<lparr>failurePpm = 0, delayPpm = 1000000, maxDelayMicros = 0\<rparr>))
     = None"
proof -
  have "ppm impl (Fin 1) = Inr 1000000"
    by (simp add: ppm_def float32_OneMillion round_f32_OneMillion int32_of_float32_def)
  then have a: "acceptFg (BlockIncomingConns impl (NewTCPProxy \<lparr>failurePpm = 0, delayPpm = 1000000, maxDelayMicros = 0\<rparr>))
     = \<lparr>failurePpm = 1000000, delayPpm = 1000000, maxDelayMicros = 0\<rparr>"
    by (simp add: BlockIncomingConns_def NewTCPProxy_def SetFailureProbability_def)
  have b: "FailMaybe \<lparr>failurePpm = 1000000, delayPpm = 1000000, maxDelayMicros = 0\<rparr> r1 r2 r3 = Panicked"
    by (rule FailMaybe_panics) simp_all
  from a b show ?thesis by (simp add: serve_iter_def)
qed

section \<open>The accept loop and the connection handlers\<close>

lemma serve_accepts:
  "\<exists>t'. serve_iter (Accepted c (Returned sl None)) t = Some (True, t')
     \<and> closed t' = closed t
     \<and> FrontendDropCtr (stats t') = FrontendDropCtr (stats t)
     \<and> activeConnCtr (stats t') = activeConnCtr (stats t) + 1
     \<and> handed t' = handed t @ [c]
     \<and> running t' = running t @ [c]"
  by (simp add: serve_iter_def Let_def)

text \<open>
  C4. For every successfully accepted connection, an accept-time \<open>FailMaybe\<close> that signals
  failure should close the connection, record exactly one frontend drop, and keep the
  connection away from a connection handler. The accept loop does the first two and then
  falls through to the code that spawns the handler: the branch of the injected failure
  has no \<open>continue\<close>. For every connection \<open>c\<close> and every state, after an iteration
  that accepts \<open>c\<close> and draws a failure, \<open>c\<close> is closed, one frontend drop is counted, and
  \<open>c\<close> is handed to a handler all the same.
\<close>

theorem serve_hands_dropped_conn_to_handler:
  "\<exists>t'. serve_iter (Accepted c (Returned sl (Some e))) t = Some (True, t')
     \<and> closed t' = closed t @ [c]
     \<and> FrontendDropCtr (stats t') = FrontendDropCtr (stats t) + 1
     \<and> handed t' = handed t @ [c]
     \<and> running t' = running t @ [c]"
  by (simp add: serve_iter_def closeFrontendConn_def Let_def)

text \<open>
  In every state, a connection dropped at accept time whose handler then finishes has
  taken one from the active-connection counter: down at the drop, up at the hand-over,
  down again at the end of the handler.
\<close>

lemma dropped_conn_counts_minus_one:
  "\<exists>t'. serve_iter (Accepted c (Returned sl (Some e))) t = Some (True, t')
     \<and> activeConnCtr (stats t') = activeConnCtr (stats t)
     \<and> activeConnCtr (stats (handler_done c t')) = activeConnCtr (stats t) - 1"
  by (simp add: serve_iter_def handler_done_def closeFrontendConn_def Let_def)

text \<open>
  C5. Across the operations of a relay the active-connection counter should never be
  negative, and go up once and down once per connection. On a fresh relay, the run that
  accepts connection 7 with an injected accept failure, lets the handler of 7 finish,
  and stops the relay ends with the counter at \<open>-1\<close>: the connection was closed twice
  (once as dropped, once by the handler), so the counter went down twice and up once.
\<close>

theorem active_counter_negative_after_drop:
  "map_option (\<lambda>t. (sint (activeConnCtr (stats t)), closed t, handed t, running t, wg t))
     (run [Accept (Accepted 7 (Returned None (Some errInjectedFailure))), HandlerDone 7,
           StopCalled, Accept AcceptError]
        (NewTCPProxy NewFailureGenerator))
   = Some (- 1, [7, 7], [7], [], 0)"
  by (simp add: step_def serve_iter_def handler_done_def closeFrontendConn_def Let_def
      NewTCPProxy_def)

section \<open>The relay loop\<close>

lemma copy_received_conditional:
  assumes "nr \<noteq> 0" and "FailOnCondition g = Some cond"
  shows "calls (fst (copy_received g e nr s)) = calls s @ [CallFailOnCondition (buf s)]"
    and "cond (buf s) = Some x \<Longrightarrow>
           copy_received g e nr s
             = (backendDrop_Inc (s\<lparr>calls := calls s @ [CallFailOnCondition (buf s)]\<rparr>),
                Some (Some (Wrapf x ''injected recv failure on satisfying condition'')))"
  using assms
  by (auto simp: copy_received_def copy_write_def backendDrop_Inc_def Let_def
      split: option.splits)

lemma copy_received_plain:
  assumes "nr \<noteq> 0" and "FailOnCondition g = None"
  shows "calls (fst (copy_received g e nr s)) = calls s @ [CallFailMaybe]"
    and "failMaybe e = Some x \<Longrightarrow>
           copy_received g e nr s
             = (backendDrop_Inc (s\<lparr>calls := calls s @ [CallFailMaybe]\<rparr>),
                Some (Some (Wrapf x ''injected recv failure'')))"
  using assms
  by (auto simp: copy_received_def copy_write_def backendDrop_Inc_def Let_def
      split: option.splits)

text \<open>
  Whatever the capability is, it is given the whole buffer: the bytes just read followed
  by what earlier reads left behind them, as many bytes as the buffer has.
\<close>

lemma copy_iter_passes_buffer:
  assumes "\<not> peerTerm e" and "\<not> quitClosed e" and "deadlineErr e = None"
    and "readErr e = None" and "readData e \<noteq> []" and "buf s \<noteq> []"
    and "FailOnCondition g = Some cond"
  shows "calls (fst (copy_iter g e s))
           = calls s @ [CallFailOnCondition
               (take (length (buf s)) (readData e)
                @ drop (length (take (length (buf s)) (readData e))) (buf s))]"
    and "length (take (length (buf s)) (readData e)
                @ drop (length (take (length (buf s)) (readData e))) (buf s)) = length (buf s)"
proof -
  let ?d = "take (length (buf s)) (readData e)"
  have "?d \<noteq> []" using assms(5,6) by simp
  then have nr: "length ?d \<noteq> 0" by simp
  show "calls (fst (copy_iter g e s))
           = calls s @ [CallFailOnCondition (?d @ drop (length ?d) (buf s))]"
    using assms(1-4) copy_received_conditional(1) [OF nr assms(7)]
    by (simp add: copy_iter_def Let_def)
  show "length (?d @ drop (length ?d) (buf s)) = length (buf s)"
    by simp
qed

lemma no_pattern_in_zeros: "\<not> contains_pattern [1, 2] (replicate n 0)"
  by (induction n) auto

lemma no_pattern_after_two: "\<not> contains_pattern [1, 2] (2 # replicate n 0)"
  using no_pattern_in_zeros [of n] by (cases n) auto

text \<open>
  C3. After a successful non-empty read of \<open>n\<close> bytes, a generator with the
  content-conditioned capability should be given exactly the \<open>n\<close> bytes just read. The
  loop passes \<open>buf\<close>, the whole buffer of 1024 bytes, where the log line and the write
  next to it take \<open>buf[:nr]\<close>. A relay whose generator fails on the byte pattern 1, 2
  first reads the bytes 9, 2 and forwards them; it then reads the single byte 1, and the
  generator, given the byte 1 followed by the 2 left in the buffer by the first read,
  signals a failure: the backend drop is counted and the loop ends with the error,
  although the byte just read does not hold the pattern. (The plain check is not
  consulted on either read.)
\<close>

theorem copy_passes_whole_buffer:
  "copy \<lparr>FailOnCondition = Some (FailOnPattern [1, 2])\<rparr>
      [\<lparr>peerTerm = False, quitClosed = False, deadlineErr = None, readData = [9, 2],
        readErr = None, failMaybe = None, writeErr = None\<rparr>,
       \<lparr>peerTerm = False, quitClosed = False, deadlineErr = None, readData = [1],
        readErr = None, failMaybe = None, writeErr = None\<rparr>]
      \<lparr>activeConnCtr = 1, FrontendDropCtr = 0, backendDropCtr = 0\<rparr>
   = (\<lparr>buf = 1 # 2 # replicate 1022 0,
       cstats = \<lparr>activeConnCtr = 1, FrontendDropCtr = 0, backendDropCtr = 1\<rparr>,
       written = [9, 2],
       calls = [CallFailOnCondition (9 # 2 # replicate 1022 0),
                CallFailOnCondition (1 # 2 # replicate 1022 0)],
       selfTerm = True\<rparr>,
      Some (Some (Wrapf errInjectedFailure ''injected recv failure on satisfying condition'')))
   \<and> FailOnPattern [1, 2] [1] = None"
  by (simp add: copy_def copy_init_def copy_iter_def copy_received_def copy_write_def
      backendDrop_Inc_def Let_def FailOnPattern_def no_pattern_in_zeros no_pattern_after_two)

text \<open>
  C8. In an iteration of the relay loop that reaches the read (no termination signal is
  set and the deadline could be set): a read that fails with a timeout is no error, the
  loop goes on to its next iteration, which starts by checking the termination signals,
  and nothing was counted, written or asked of the generator; a clean end of stream
  (\<open>io.EOF\<close> with no byte, as a connection reports it) or a read of zero bytes makes
  \<open>copy\<close> return \<open>nil\<close>; any other read error makes it return that error, wrapped.
\<close>

theorem copy_read_outcomes:
  assumes "\<not> peerTerm e" and "\<not> quitClosed e" and "deadlineErr e = None"
  shows "(readErr e = Some NetTimeout \<longrightarrow>
            (\<exists>s'. copy_iter g e s = (s', None) \<and> copy_loop g (e # es) s = copy_loop g es s'
                \<and> (\<forall>e'. peerTerm e' \<or> quitClosed e' \<longrightarrow>
                      copy_loop g (e # e' # es) s = (s', Some None))
                \<and> cstats s' = cstats s \<and> written s' = written s \<and> calls s' = calls s))
       \<and> ((readErr e = Some io_EOF \<or> readErr e = None) \<and> readData e = [] \<longrightarrow>
            copy_iter g e s = (s, Some None) \<and> copy_loop g (e # es) s = (s, Some None))
       \<and> (\<forall>x. readErr e = Some x \<and> x \<noteq> NetTimeout \<and> x \<noteq> io_EOF \<longrightarrow>
            (\<exists>s'. copy_iter g e s = (s', Some (Some (Wrapf x ''read'')))
                \<and> copy_loop g (e # es) s = (s', Some (Some (Wrapf x ''read'')))
                \<and> cstats s' = cstats s \<and> written s' = written s \<and> calls s' = calls s))"
  using assms by (auto simp: copy_iter_def copy_received_def Let_def)

text \<open>
  The statement of C8 on a relay without the content-conditioned capability: a timeout
  followed by an iteration that finds \<open>quit\<close> closed, an end of stream, and a connection
  reset.
\<close>

theorem copy_read_outcomes_witness:
  "copy_loop \<lparr>FailOnCondition = None\<rparr>
     [\<lparr>peerTerm = False, quitClosed = False, deadlineErr = None, readData = [],
       readErr = Some NetTimeout, failMaybe = None, writeErr = None\<rparr>,
      \<lparr>peerTerm = False, quitClosed = True, deadlineErr = None, readData = [],
       readErr = None, failMaybe = None, writeErr = None\<rparr>]
     (copy_init \<lparr>activeConnCtr = 1, FrontendDropCtr = 0, backendDropCtr = 0\<rparr>)
   = (copy_init \<lparr>activeConnCtr = 1, FrontendDropCtr = 0, backendDropCtr = 0\<rparr>, Some None)
   \<and> copy_loop \<lparr>FailOnCondition = None\<rparr>
     [\<lparr>peerTerm = False, quitClosed = False, deadlineErr = None, readData = [],
       readErr = Some io_EOF, failMaybe = None, writeErr = None\<rparr>]
     (copy_init \<lparr>activeConnCtr = 1, FrontendDropCtr = 0, backendDropCtr = 0\<rparr>)
   = (copy_init \<lparr>activeConnCtr = 1, FrontendDropCtr = 0, backendDropCtr = 0\<rparr>, Some None)
   \<and> copy_loop \<lparr>FailOnCondition = None\<rparr>
     [\<lparr>peerTerm = False, quitClosed = False, deadlineErr = None, readData = [],
       readErr = Some (NetError ''connection reset by peer''), failMaybe = None,
       writeErr = None\<rparr>]
     (copy_init \<lparr>activeConnCtr = 1, FrontendDropCtr = 0, backendDropCtr = 0\<rparr>)
   = (copy_init \<lparr>activeConnCtr = 1, FrontendDropCtr = 0, backendDropCtr = 0\<rparr>,
      Some (Some (Wrapf (NetError ''connection reset by peer'') ''read'')))"
proof -
  let ?g = "\<lparr>FailOnCondition = None\<rparr>"
  let ?s = "copy_init \<lparr>activeConnCtr = 1, FrontendDropCtr = 0, backendDropCtr = 0\<rparr>"
  let ?t = "\<lparr>peerTerm = False, quitClosed = False, deadlineErr = None, readData = [],
       readErr = Some NetTimeout, failMaybe = None, writeErr = None\<rparr>"
  let ?q = "\<lparr>peerTerm = False, quitClosed = True, deadlineErr = None, readData = [],
       readErr = None, failMaybe = None, writeErr = None\<rparr>"
  let ?f = "\<lparr>peerTerm = False, quitClosed = False, deadlineErr = None, readData = [],
       readErr = Some io_EOF, failMaybe = None, writeErr = None\<rparr>"
  let ?r = "\<lparr>peerTerm = False, quitClosed = False, deadlineErr = None, readData = [],
       readErr = Some (NetError ''connection reset by peer''), failMaybe = None,
       writeErr = None\<rparr>"
  have a: "copy_iter ?g ?t ?s = (?s, None)"
    by (simp add: copy_iter_def copy_init_def Let_def)
  have "copy_loop ?g [?t, ?q] ?s = (?s, Some None)"
    using copy_read_outcomes [of ?t ?g ?s "[]"] a by auto
  moreover have "copy_loop ?g [?f] ?s = (?s, Some None)"
    using copy_read_outcomes [of ?f ?g ?s "[]"] by simp
  moreover have "copy_loop ?g [?r] ?s = (?s, Some (Some (Wrapf (NetError ''connection reset by peer'') ''read'')))"
    using copy_read_outcomes [of ?r ?g ?s "[]"] a by (auto simp: copy_iter_def copy_init_def Let_def)
  ultimately show ?thesis by simp
qed

section \<open>The assured failure plan\<close>

lemma plan_run_query:
  "plan_run decode plan fs (evs @ Query point # evs')
     = plan_run decode plan fs evs
       @ AssuredFailurePlan_FailMaybe decode (fs_after fs evs) plan point
       # plan_run decode plan (fs_after fs evs) evs'"
proof (induction evs arbitrary: fs)
  case Nil
  show ?case by simp
next
  case (Cons ev evs)
  then show ?case by (cases ev) (simp_all add: fun_upd_def)
qed

text \<open>
  C1. For every failure point and every state of the file system at the moment of the
  call, the plan's \<open>FailMaybe\<close> returns success when the plan file does not exist; when
  the file exists and parses as a list of failure points (the decoder reads a list from
  it, or it is empty, which counts as the empty list) it returns the injected failure if
  and only if the point is a member of the list, and success otherwise. The result
  depends on nothing but the contents of the plan file at the time of the call: two file
  systems that agree on the plan file give the same result, and in a run where the
  driver's writes and removals are interleaved with queries, each query gets the result
  of the file system as the events before it left it.
\<close>

theorem assured_plan_decides_by_file:
  "(fs (PlanFilePath plan) = None \<longrightarrow> AssuredFailurePlan_FailMaybe decode fs plan point = None)
   \<and> (\<forall>content fps. fs (PlanFilePath plan) = Some content \<and> read_plan decode content = Some fps \<longrightarrow>
         (AssuredFailurePlan_FailMaybe decode fs plan point = Some errInjectedFailure) = (point \<in> set fps)
         \<and> (AssuredFailurePlan_FailMaybe decode fs plan point = None) = (point \<notin> set fps))
   \<and> (\<forall>fs'. fs' (PlanFilePath plan) = fs (PlanFilePath plan) \<longrightarrow>
         AssuredFailurePlan_FailMaybe decode fs' plan point
           = AssuredFailurePlan_FailMaybe decode fs plan point)
   \<and> (\<forall>fs0 evs evs'. fs_after fs0 evs = fs \<longrightarrow>
         plan_run decode plan fs0 (evs @ Query point # evs')
           = plan_run decode plan fs0 evs
             @ AssuredFailurePlan_FailMaybe decode fs plan point # plan_run decode plan fs evs')"
  by (auto simp: AssuredFailurePlan_FailMaybe_def plan_run_query)

lemma decode_null: "decode_plan ''null'' = Some []"
  by code_simp

lemma decode_example:
  \<open>decode_plan ''["AfterAdditiveSchemaChange", "BeforeMetadataMigration", "SChTargetStateMT3"]''
     = Some [''AfterAdditiveSchemaChange'', ''BeforeMetadataMigration'', ''SChTargetStateMT3'']\<close>
  by code_simp

text \<open>
  The statement of C1 on the run of the tests: no file; a plan of three points, one
  queried and one other point queried; the plan rewritten as the empty list; the plan
  rewritten as \<open>null\<close>, as the helper of the test writes a plan without points; the file
  removed; the file written empty.
\<close>

theorem assured_plan_decides_by_file_witness:
  \<open>plan_run decode_plan \<lparr>PlanFilePath = ''/tmp/callisto.assured_failure.json''\<rparr> Map.empty
      [Query ''SChTargetStateMT3'',
       WriteFile ''/tmp/callisto.assured_failure.json''
         ''["AfterAdditiveSchemaChange", "BeforeMetadataMigration", "SChTargetStateMT3"]'',
       Query ''SChTargetStateMT3'',
       Query ''SChTargetStateP1'',
       WriteFile ''/tmp/callisto.assured_failure.json'' ''[]'',
       Query ''SChTargetStateMT3'',
       WriteFile ''/tmp/callisto.assured_failure.json'' ''null'',
       Query ''SChTargetStateMT3'',
       Remove ''/tmp/callisto.assured_failure.json'',
       Query ''SChTargetStateMT3'',
       WriteFile ''/tmp/callisto.assured_failure.json'' [],
       Query ''SChTargetStateMT3'']
    = [None, Some errInjectedFailure, None, None, None, None, None]\<close>
proof -
  let ?path = "''/tmp/callisto.assured_failure.json''"
  let ?plan = "\<lparr>PlanFilePath = ?path\<rparr>"
  let ?c = \<open>''["AfterAdditiveSchemaChange", "BeforeMetadataMigration", "SChTargetStateMT3"]''\<close>
  let ?fps = "[''AfterAdditiveSchemaChange'', ''BeforeMetadataMigration'', ''SChTargetStateMT3'']"
  let ?fs1 = "Map.empty(?path \<mapsto> ?c)"
  let ?fs2 = "?fs1(?path \<mapsto> ''[]'')"
  let ?fsn = "?fs2(?path \<mapsto> ''null'')"
  let ?fs3 = "?fsn(?path := None)"
  let ?fse = "?fs3(?path \<mapsto> [])"
  have r1: "read_plan decode_plan ?c = Some ?fps"
    by (simp add: read_plan_def decode_example)
  have r2: "read_plan decode_plan ''[]'' = Some []"
    unfolding read_plan_def by code_simp
  have rn: "read_plan decode_plan ''null'' = Some []"
    by (simp add: read_plan_def decode_null)
  have re: "read_plan decode_plan [] = Some []"
    by (simp add: read_plan_def)
  have q0: "AssuredFailurePlan_FailMaybe decode_plan Map.empty ?plan ''SChTargetStateMT3'' = None"
    using assured_plan_decides_by_file [of Map.empty ?plan decode_plan "''SChTargetStateMT3''"] by simp
  have q1: "AssuredFailurePlan_FailMaybe decode_plan ?fs1 ?plan ''SChTargetStateMT3'' = Some errInjectedFailure"
    using assured_plan_decides_by_file [of ?fs1 ?plan decode_plan "''SChTargetStateMT3''"] r1 by simp
  have q2: "AssuredFailurePlan_FailMaybe decode_plan ?fs1 ?plan ''SChTargetStateP1'' = None"
    using assured_plan_decides_by_file [of ?fs1 ?plan decode_plan "''SChTargetStateP1''"] r1 by simp
  have q3: "AssuredFailurePlan_FailMaybe decode_plan ?fs2 ?plan ''SChTargetStateMT3'' = None"
    using assured_plan_decides_by_file [of ?fs2 ?plan decode_plan "''SChTargetStateMT3''"] r2 by simp
  have qn: "AssuredFailurePlan_FailMaybe decode_plan ?fsn ?plan ''SChTargetStateMT3'' = None"
    using assured_plan_decides_by_file [of ?fsn ?plan decode_plan "''SChTargetStateMT3''"] rn by simp
  have q4: "AssuredFailurePlan_FailMaybe decode_plan ?fs3 ?plan ''SChTargetStateMT3'' = None"
    using assured_plan_decides_by_file [of ?fs3 ?plan decode_plan "''SChTargetStateMT3''"] by simp
  have qe: "AssuredFailurePlan_FailMaybe decode_plan ?fse ?plan ''SChTargetStateMT3'' = None"
    using assured_plan_decides_by_file [of ?fse ?plan decode_plan "''SChTargetStateMT3''"] re by simp
  show ?thesis using q0 q1 q2 q3 qn q4 qe by simp
qed

text \<open>
  Whatever the strict reading accepts, the reading of \<open>json.Unmarshal\<close> accepts: contents
  that \<open>decode_plan\<close> rejects are not a JSON array of strings.
\<close>

lemma json_step_go:
  assumes "json_step False st fps c = Some (st', f)"
  shows "\<exists>f'. json_step True st fps' c = Some (st', f')"
  using assms
  by (cases st)
     (auto simp: json_step_def string_char_def escape_char_def Let_def
           split: if_splits option.splits)

lemma json_scan_go:
  "json_scan False st fps cs \<noteq> None \<Longrightarrow> json_scan True st fps' cs \<noteq> None"
proof (induction cs arbitrary: st fps fps')
  case Nil
  then show ?case by (cases st) simp_all
next
  case (Cons c cs)
  from Cons.prems obtain st' f where s: "json_step False st fps c = Some (st', f)"
    and r: "json_scan False st' f cs \<noteq> None"
    by (auto split: option.splits)
  from json_step_go [OF s, of fps'] obtain f' where s': "json_step True st fps' c = Some (st', f')"
    by blast
  from Cons.IH [OF r, of f'] s' show ?case by simp
qed

lemma decode_plan_accepts_arrays:
  "decode_plan content = None \<Longrightarrow> json_string_array content = None"
proof (rule ccontr)
  assume d: "decode_plan content = None" and "json_string_array content \<noteq> None"
  then have "json_scan False JStart [] content \<noteq> None" by (simp add: json_string_array_def)
  then have "json_scan True JStart [] content \<noteq> None" by (rule json_scan_go)
  with d show False by (simp add: decode_plan_def)
qed







end
